theory Spec2Isabelle
  imports Complex_Main
begin

section \<open>Values shared by the modules\<close>

text \<open>
  Timestamps are instants on the wall clock, in seconds; a difference of two of them is
  what \<^verbatim>\<open>(a - b).total_seconds()\<close> yields. Every \<^verbatim>\<open>datetime.now()\<close> of the source is
  an explicit argument of the function that reads the clock, one argument per read.
\<close>

type_synonym time = rat

text \<open>
  An account of the snapshot is the dictionary built by \<^verbatim>\<open>fetch_all_accounts_batch\<close>: every
  value is a string (\<^verbatim>\<open>str(account[idx])\<close> or \<^verbatim>\<open>""\<close>). The dictionary is an association list;
  \<^verbatim>\<open>d.get(k, default)\<close> is \<open>dget\<close>.
\<close>

type_synonym account = "(string \<times> string) list"

definition dget :: "account \<Rightarrow> string \<Rightarrow> string \<Rightarrow> string" where
  "dget d k dflt = (case map_of d k of None \<Rightarrow> dflt | Some v \<Rightarrow> v)"

text \<open>
  The identifier handed to a lookup is a Python value; the source coerces it with
  \<^verbatim>\<open>str()\<close>. Strings and integers are the two kinds a caller has.
\<close>

datatype pyval = PStr string | PInt int

fun digits_of :: "nat \<Rightarrow> string" where
  "digits_of n =
     (if n < 10 then [''0123456789'' ! n]
      else digits_of (n div 10) @ [''0123456789'' ! (n mod 10)])"

declare digits_of.simps [simp del]

fun py_str :: "pyval \<Rightarrow> string" where
  "py_str (PStr s) = s"
| "py_str (PInt i) = (if i < 0 then CHR ''-'' # digits_of (nat (- i)) else digits_of (nat i))"

text \<open>The exception that the modelled code raises itself (line 92 of api\_manager.py).\<close>

datatype py_error = TypeError

section \<open>config.py\<close>

definition CACHE_TTL_MIN :: rat where "CACHE_TTL_MIN = 60"
definition CACHE_TTL_NORMAL :: rat where "CACHE_TTL_NORMAL = 90"
definition CACHE_TTL_MAX :: rat where "CACHE_TTL_MAX = 120"
definition BURST_MODE_DURATION :: rat where "BURST_MODE_DURATION = 60"

section \<open>stats.py\<close>

text \<open>The counters of \<^verbatim>\<open>RequestStats\<close> that the modelled functions increment.\<close>

record request_stats =
  fast_detections :: int
  burst_activations :: int
  adaptive_adjustments :: int

section \<open>api\_manager.py: SmartCacheManager\<close>

record smart_cache_manager =
  cache :: "account list option"
  cache_timestamp :: "time option"
  cache_ttl :: rat
  burst_mode_active :: bool
  burst_mode_started :: "time option"
  last_changes_count :: int
  consecutive_quiet_cycles :: int
  last_successful_cache :: "account list option"
  last_successful_timestamp :: "time option"
  burst_targets :: "string set"

text \<open>\<^verbatim>\<open>SmartCacheManager.__init__\<close>\<close>

definition init_cache :: smart_cache_manager where
  "init_cache =
     \<lparr>cache = None, cache_timestamp = None, cache_ttl = CACHE_TTL_NORMAL,
      burst_mode_active = False, burst_mode_started = None,
      last_changes_count = 0, consecutive_quiet_cycles = 0,
      last_successful_cache = None, last_successful_timestamp = None,
      burst_targets = {}\<rparr>"

text \<open>\<^verbatim>\<open>is_cache_valid\<close>; \<open>now\<close> is the clock read of line 72.\<close>

definition is_cache_valid :: "time \<Rightarrow> smart_cache_manager \<Rightarrow> bool" where
  "is_cache_valid now sc =
     (case (cache sc, cache_timestamp sc) of
        (Some snap, Some ts) \<Rightarrow>
          if burst_mode_active sc then False
          else now - ts < cache_ttl sc
      | _ \<Rightarrow> False)"

text \<open>\<^verbatim>\<open>activate_burst_mode\<close>; \<open>now\<close> is read only when burst is inactive.\<close>

definition activate_burst_mode ::
  "string \<Rightarrow> time \<Rightarrow> smart_cache_manager \<times> request_stats \<Rightarrow> smart_cache_manager \<times> request_stats"
where
  "activate_burst_mode account_id now = (\<lambda>(sc, st).
     let (sc1, st1) =
           (if \<not> burst_mode_active sc
            then (sc\<lparr>burst_mode_active := True, burst_mode_started := Some now\<rparr>,
                  st\<lparr>burst_activations := burst_activations st + 1\<rparr>)
            else (sc, st))
     in (sc1\<lparr>burst_targets := insert account_id (burst_targets sc1)\<rparr>, st1))"

text \<open>
  \<^verbatim>\<open>check_burst_mode\<close>. With burst active and no start time the subtraction of line 92
  raises \<^verbatim>\<open>TypeError\<close>.
\<close>

definition check_burst_mode :: "time \<Rightarrow> smart_cache_manager \<Rightarrow> py_error + smart_cache_manager" where
  "check_burst_mode now sc =
     (if \<not> burst_mode_active sc then Inr sc
      else case burst_mode_started sc of
             None \<Rightarrow> Inl TypeError
           | Some started \<Rightarrow>
               if now - started \<ge> BURST_MODE_DURATION
               then Inr (sc\<lparr>burst_mode_active := False, burst_mode_started := None,
                            burst_targets := {}\<rparr>)
               else Inr sc)"

text \<open>\<^verbatim>\<open>adjust_ttl\<close>\<close>

definition adjust_ttl ::
  "int \<Rightarrow> smart_cache_manager \<times> request_stats \<Rightarrow> smart_cache_manager \<times> request_stats"
where
  "adjust_ttl changes_detected = (\<lambda>(sc, st).
     let old_ttl = cache_ttl sc;
         sc1 =
           (if changes_detected \<ge> 5
            then sc\<lparr>cache_ttl := CACHE_TTL_MIN, consecutive_quiet_cycles := 0\<rparr>
            else if changes_detected \<ge> 2
            then sc\<lparr>cache_ttl := CACHE_TTL_NORMAL, consecutive_quiet_cycles := 0\<rparr>
            else
              let sc2 = sc\<lparr>consecutive_quiet_cycles := consecutive_quiet_cycles sc + 1\<rparr>
              in if consecutive_quiet_cycles sc2 \<ge> 3
                 then sc2\<lparr>cache_ttl := CACHE_TTL_MAX\<rparr>
                 else sc2)
     in (sc1,
         if old_ttl \<noteq> cache_ttl sc1
         then st\<lparr>adaptive_adjustments := adaptive_adjustments st + 1\<rparr>
         else st))"

text \<open>
  \<^verbatim>\<open>update_cache\<close>; \<open>t1\<close> and \<open>t2\<close> are the two clock reads of the success branch.
  \<^verbatim>\<open>if self.last_successful_cache:\<close> is Python truthiness: neither \<^verbatim>\<open>None\<close> nor \<^verbatim>\<open>[]\<close>.
\<close>

definition update_cache ::
  "account list \<Rightarrow> bool \<Rightarrow> time \<Rightarrow> time \<Rightarrow> smart_cache_manager \<Rightarrow> smart_cache_manager"
where
  "update_cache new_data success t1 t2 sc =
     (if success
      then sc\<lparr>cache := Some new_data, cache_timestamp := Some t1,
              last_successful_cache := Some new_data, last_successful_timestamp := Some t2\<rparr>
      else case last_successful_cache sc of
             Some (a # as) \<Rightarrow>
               sc\<lparr>cache := last_successful_cache sc,
                  cache_timestamp := last_successful_timestamp sc\<rparr>
           | _ \<Rightarrow> sc)"

text \<open>
  \<^verbatim>\<open>OptimizedAPIManager.add_sender\<close>, lines 400--401 (and 411--412): a successful add drops
  the snapshot so that the next read refetches.
\<close>

definition invalidate_cache :: "smart_cache_manager \<Rightarrow> smart_cache_manager" where
  "invalidate_cache sc = sc\<lparr>cache := None, cache_timestamp := None\<rparr>"

text \<open>\<^verbatim>\<open>get_cache\<close>\<close>

definition get_cache :: "smart_cache_manager \<Rightarrow> account list option" where
  "get_cache sc = cache sc"

text \<open>
  \<^verbatim>\<open>get_account_by_id\<close>. The field is a string already, so \<^verbatim>\<open>str()\<close> of it is the
  field; \<^verbatim>\<open>str(account_id)\<close> is \<open>py_str\<close>. The loop returns at the first match.
\<close>

fun scan_by_id :: "account list \<Rightarrow> pyval \<Rightarrow> account option" where
  "scan_by_id [] account_id = None"
| "scan_by_id (account # rest) account_id =
     (if py_str (PStr (dget account ''idAccount'' '''')) = py_str account_id
      then Some account
      else scan_by_id rest account_id)"

definition get_account_by_id :: "pyval \<Rightarrow> smart_cache_manager \<Rightarrow> account option" where
  "get_account_by_id account_id sc =
     (case cache sc of
        None \<Rightarrow> None
      | Some [] \<Rightarrow> None
      | Some accounts \<Rightarrow> scan_by_id accounts account_id)"

section \<open>Strings\<close>

text \<open>
  A string is the list of the bytes of its UTF-8 encoding, so equality of strings is
  equality of the Python strings. \<^verbatim>\<open>str.upper()\<close> is a builtin of the language, not code
  of the repository, and it follows the Unicode case tables: it is a parameter \<open>py_upper\<close>
  of the functions that call it, and nothing is assumed of it.
\<close>

text \<open>\<^verbatim>\<open>s.replace(" ", "_")\<close>\<close>

definition replace_spaces :: "string \<Rightarrow> string" where
  "replace_spaces s = map (\<lambda>c. if c = CHR '' '' then CHR ''_'' else c) s"

text \<open>
  Truthiness of the values the source tests with \<^verbatim>\<open>if x:\<close>: a dictionary that may be
  \<^verbatim>\<open>None\<close>, and a string that may be \<^verbatim>\<open>None\<close>.
\<close>

fun truthy_dict :: "account option \<Rightarrow> bool" where
  "truthy_dict None = False"
| "truthy_dict (Some []) = False"
| "truthy_dict (Some (kv # rest)) = True"

fun truthy_str :: "string option \<Rightarrow> bool" where
  "truthy_str None = False"
| "truthy_str (Some s) = (s \<noteq> [])"

text \<open>
  \<^verbatim>\<open>float(s)\<close> is a builtin as well: it is a parameter \<open>py_float\<close> of the functions that
  call it, \<open>None\<close> standing for \<^verbatim>\<open>ValueError\<close>. A float
  is a finite number, an infinity or a NaN; \<open>float_pos\<close> is the test \<^verbatim>\<open>x > 0\<close>.
\<close>

datatype pyfloat = Finite rat | PosInf | NegInf | NaN

fun float_pos :: "pyfloat \<Rightarrow> bool" where
  "float_pos (Finite r) = (r > 0)"
| "float_pos PosInf = True"
| "float_pos NegInf = False"
| "float_pos NaN = False"

section \<open>config.py: the status vocabulary\<close>

definition BURST_MODE_INTERVAL :: rat where "BURST_MODE_INTERVAL = 5 / 2"

definition TRANSITIONAL_STATUSES :: "string set" where
  "TRANSITIONAL_STATUSES = {''LOGGING'', ''LOGGED'', ''LOGGED IN'', ''WAITING'', ''NEW ACCOUNT''}"

definition FINAL_STATUSES :: "string set" where
  "FINAL_STATUSES =
     {''AVAILABLE'', ''ACTIVE'', ''WRONG DETAILS'', ''BACKUP CODE WRONG'', ''CODE SENT'',
      ''DISABLED'', ''NO TRANSFER ACCESS'', ''TRANSFER LIST IS FULL'', ''NO CLUB'',
      ''GENERAL LOGIN ERROR'', ''ERROR'', ''BLOCKED'', ''AMOUNT TAKEN''}"

text \<open>
  The default of \<^verbatim>\<open>account_info.get("Status", ...)\<close> in core.py is an Arabic phrase
  ("undefined"); these are its UTF-8 bytes.
\<close>

definition STATUS_UNDEFINED :: string where
  "STATUS_UNDEFINED =
     [CHR 0xD8, CHR 0xBA, CHR 0xD9, CHR 0x8A, CHR 0xD8, CHR 0xB1, CHR 0x20, CHR 0xD9,
      CHR 0x85, CHR 0xD8, CHR 0xAD, CHR 0xD8, CHR 0xAF, CHR 0xD8, CHR 0xAF]"

section \<open>core.py: the monitored accounts\<close>

text \<open>
  \<^verbatim>\<open>monitored_accounts.json\<close> is a dictionary from the key \<^verbatim>\<open>f"{account_id}_{email}"\<close> to
  the entry below; an insertion-ordered dictionary is an association list with distinct
  keys. \<^verbatim>\<open>load_monitored_accounts\<close> and \<^verbatim>\<open>save_monitored_accounts\<close> read and write the
  whole file, so a function that loads, changes and saves is a function on the contents of
  the file. A disk that fails is outside the model.
\<close>

record monitored_account =
  m_email :: string
  m_account_id :: string
  m_last_known_status :: string
  m_chat_id :: int
  m_source :: string
  m_added_at :: time
  m_last_check :: time

type_synonym accounts_db = "(string \<times> monitored_account) list"

text \<open>\<^verbatim>\<open>d[k] = v\<close>: an existing key keeps its place, a new key goes to the end.\<close>

fun dict_set :: "('k \<times> 'v) list \<Rightarrow> 'k \<Rightarrow> 'v \<Rightarrow> ('k \<times> 'v) list" where
  "dict_set [] k v = [(k, v)]"
| "dict_set ((k', v') # rest) k v =
     (if k' = k then (k, v) # rest else (k', v') # dict_set rest k v)"

definition monitored_key :: "string \<Rightarrow> string \<Rightarrow> string" where
  "monitored_key account_id email = account_id @ ''_'' @ email"

text \<open>\<^verbatim>\<open>add_monitored_account\<close>; \<open>t_added\<close> and \<open>t_check\<close> are its two clock reads.\<close>

definition add_monitored_account ::
  "string \<Rightarrow> string \<Rightarrow> string \<Rightarrow> int \<Rightarrow> string \<Rightarrow> time \<Rightarrow> time \<Rightarrow> accounts_db \<Rightarrow> accounts_db"
where
  "add_monitored_account email account_id status chat_id source t_added t_check accounts =
     dict_set accounts (monitored_key account_id email)
       \<lparr>m_email = email, m_account_id = account_id, m_last_known_status = status,
        m_chat_id = chat_id, m_source = source, m_added_at = t_added, m_last_check = t_check\<rparr>"

text \<open>
  \<^verbatim>\<open>update_monitored_account_status\<close>: the first entry with the identifier is updated and
  the function returns; with no such entry the file is left as it is (a warning is logged).
\<close>

fun update_monitored_account_status ::
  "string \<Rightarrow> string \<Rightarrow> time \<Rightarrow> accounts_db \<Rightarrow> accounts_db"
where
  "update_monitored_account_status account_id new_status now [] = []"
| "update_monitored_account_status account_id new_status now ((key, data) # rest) =
     (if m_account_id data = account_id
      then (key, data\<lparr>m_last_known_status := new_status, m_last_check := now\<rparr>) # rest
      else (key, data) # update_monitored_account_status account_id new_status now rest)"

section \<open>core.py: the pending queue\<close>

record pending_item =
  p_email :: string
  p_id :: string
  p_added_at :: time

text \<open>\<^verbatim>\<open>add_to_pending_queue_immediately\<close>\<close>

definition add_to_pending_queue_immediately ::
  "string \<Rightarrow> string \<Rightarrow> time \<Rightarrow> pending_item list \<Rightarrow> pending_item list"
where
  "add_to_pending_queue_immediately email account_id now emails =
     emails @ [\<lparr>p_email = email, p_id = account_id, p_added_at = now\<rparr>]"

section \<open>sheets/taken.py: the extraction queue\<close>

record taken_item =
  t_id :: string
  t_email :: string
  t_status :: string
  t_taken :: string
  t_added_at :: time

text \<open>
  \<^verbatim>\<open>add_to_taken_queue\<close>, on the items of \<^verbatim>\<open>Taken.json\<close>. The function returns
  \<^verbatim>\<open>True\<close>; its \<^verbatim>\<open>False\<close> is the handler of a failing disk.
\<close>

definition add_to_taken_queue ::
  "string \<Rightarrow> string \<Rightarrow> string \<Rightarrow> string \<Rightarrow> time \<Rightarrow> taken_item list \<Rightarrow> taken_item list"
where
  "add_to_taken_queue account_id email status taken_value now items =
     filter (\<lambda>item. t_id item \<noteq> account_id) items @
       [\<lparr>t_id = account_id, t_email = email, t_status = status, t_taken = taken_value,
         t_added_at = now\<rparr>]"

section \<open>core.py: the state the tasks share\<close>

text \<open>
  A notification is what \<^verbatim>\<open>send_status_notification\<close> hands to
  \<^verbatim>\<open>telegram_bot.send_message\<close>: the arguments the text is rendered from, not the text.
\<close>

record notification =
  n_email :: string
  n_account_id :: string
  n_old_status :: string
  n_new_status :: string
  n_chat_id :: int
  n_account_data :: account
  n_source :: string

text \<open>
  The info and warning records that \<^verbatim>\<open>continuous_monitor\<close> writes itself within a cycle
  (lines 633, 656, 666, 675, 689, 694 and 698).
\<close>

datatype log_event =
    AutoMonitored string
  | NotFoundInBatch string
  | StatusChanged string string string
  | ExtractionDetected string string string
  | InvalidTaken string string
  | NeedsAttention string string
  | TransferListFull string

text \<open>
  The globals and files of the process. \<open>ticks\<close> counts the clock reads made so far: the
  clock is a function \<open>clk\<close> from the number of a read to the instant it returned, and a
  function that reads the clock takes \<open>clk (ticks w)\<close> and advances \<open>ticks\<close>. Only
  the reads whose value reaches the state are counted, not those made for a log line or a
  message. Where the source reads the clock on one branch only (the start time of
  \<^verbatim>\<open>activate_burst_mode\<close>, the check time of \<^verbatim>\<open>update_monitored_account_status\<close>) the
  read may be counted on both: the clock is arbitrary, so no run is lost.
  No other task runs between the steps of a modelled function.
\<close>

record world =
  smart_cache :: smart_cache_manager
  stats :: request_stats
  monitored_file :: accounts_db
  pending_file :: "pending_item list"
  taken_file :: "taken_item list"
  sent :: "notification list"
  monitor_log :: "log_event list"
  ticks :: nat

text \<open>
  \<^verbatim>\<open>send_status_notification\<close>: nothing is sent for a chat id of 0; a failure of the
  bot is logged and changes nothing.
\<close>

definition send_status_notification ::
  "string \<Rightarrow> string \<Rightarrow> string \<Rightarrow> string \<Rightarrow> int \<Rightarrow> account \<Rightarrow> string \<Rightarrow> world \<Rightarrow> world"
where
  "send_status_notification email account_id old_status new_status chat_id account_data source w =
     (if chat_id = 0 then w
      else w\<lparr>sent := sent w @
                [\<lparr>n_email = email, n_account_id = account_id, n_old_status = old_status,
                  n_new_status = new_status, n_chat_id = chat_id,
                  n_account_data = account_data, n_source = source\<rparr>]\<rparr>)"

section \<open>core.py: continuous\_monitor\<close>

text \<open>
  Lines 591--595, the dictionary comprehension: accounts without identifier are left out
  and a later account replaces an earlier one with the same identifier.
\<close>

definition accounts_by_id :: "account list \<Rightarrow> string \<Rightarrow> account option" where
  "accounts_by_id all_accounts =
     map_of (rev (map (\<lambda>acc. (dget acc ''idAccount'' '''', acc))
                    (filter (\<lambda>acc. dget acc ''idAccount'' '''' \<noteq> '''') all_accounts)))"

text \<open>Lines 598--602.\<close>

definition existing_ids_of :: "accounts_db \<Rightarrow> string set" where
  "existing_ids_of accounts =
     set (filter (\<lambda>i. i \<noteq> '''') (map (\<lambda>(key, data). m_account_id data) accounts))"

text \<open>\<^verbatim>\<open>default_chat_id or 0\<close>\<close>

fun chat_id_or_0 :: "int option \<Rightarrow> int" where
  "chat_id_or_0 None = 0"
| "chat_id_or_0 (Some c) = c"

text \<open>
  Lines 604--633, the discovery loop over the snapshot. Its state is \<open>existing_ids\<close>,
  \<open>auto_added\<close> and the world.
\<close>

fun auto_discovery ::
  "(string \<Rightarrow> string) \<Rightarrow> (nat \<Rightarrow> time) \<Rightarrow> string \<Rightarrow> int option \<Rightarrow> account list \<Rightarrow>
   string set \<times> bool \<times> world \<Rightarrow> string set \<times> bool \<times> world"
where
  "auto_discovery py_upper clk default_group_name default_chat_id [] s = s"
| "auto_discovery py_upper clk default_group_name default_chat_id (account # rest)
     (existing_ids, auto_added, w) =
     (let account_id = dget account ''idAccount'' '''' in
      if account_id = '''' \<or> account_id \<in> existing_ids
         \<or> py_upper (dget account ''Status'' '''') \<noteq> ''AVAILABLE''
         \<or> dget account ''Group'' '''' \<noteq> default_group_name
      then auto_discovery py_upper clk default_group_name default_chat_id rest
             (existing_ids, auto_added, w)
      else
        let email = dget account ''Sender'' '''';
            chat_id = chat_id_or_0 default_chat_id;
            w1 = w\<lparr>monitored_file :=
                     add_monitored_account email account_id ''AVAILABLE'' chat_id ''manual''
                       (clk (ticks w)) (clk (ticks w + 1)) (monitored_file w),
                   ticks := ticks w + 2,
                   monitor_log := monitor_log w @ [AutoMonitored email]\<rparr>
        in auto_discovery py_upper clk default_group_name default_chat_id rest
             (insert account_id existing_ids, True, w1))"

text \<open>
  Lines 669--691: the extraction item. \<^verbatim>\<open>float\<close> raising \<^verbatim>\<open>ValueError\<close> is the warning
  of the handler; a value that parses and is not above zero does nothing.
\<close>

definition enqueue_taken ::
  "(string \<Rightarrow> pyfloat option) \<Rightarrow> (nat \<Rightarrow> time) \<Rightarrow> string \<Rightarrow> string \<Rightarrow> string \<Rightarrow> account \<Rightarrow>
   world \<Rightarrow> world"
where
  "enqueue_taken py_float clk account_id email current_status account_info w =
     (let taken_value = dget account_info ''Taken'' ''0'' in
      case py_float taken_value of
        None \<Rightarrow> w\<lparr>monitor_log := monitor_log w @ [InvalidTaken email taken_value]\<rparr>
      | Some x \<Rightarrow>
          if float_pos x
          then w\<lparr>monitor_log :=
                   monitor_log w @ [ExtractionDetected current_status email taken_value],
                 taken_file :=
                   add_to_taken_queue account_id email (replace_spaces current_status)
                     taken_value (clk (ticks w)) (taken_file w),
                 ticks := ticks w + 1\<rparr>
          else w)"

text \<open>
  Lines 647--717, the body of the loop over the monitored accounts, for one entry \<open>data\<close>;
  \<open>by_id\<close> is \<^verbatim>\<open>accounts_by_id\<close>. The state is \<open>changes_detected\<close> and the world.
\<close>

definition check_account ::
  "(string \<Rightarrow> string) \<Rightarrow> (string \<Rightarrow> pyfloat option) \<Rightarrow> (nat \<Rightarrow> time) \<Rightarrow> (string \<Rightarrow> account option) \<Rightarrow>
   monitored_account \<Rightarrow> int \<times> world \<Rightarrow> int \<times> world"
where
  "check_account py_upper py_float clk by_id data = (\<lambda>(changes_detected, w).
     let account_id = m_account_id data in
     if account_id = '''' then (changes_detected, w)
     else if \<not> truthy_dict (by_id account_id)
     then (changes_detected, w\<lparr>monitor_log := monitor_log w @ [NotFoundInBatch account_id]\<rparr>)
     else
       let account_info = the (by_id account_id);
           current_status = py_upper (dget account_info ''Status'' STATUS_UNDEFINED);
           last_status = py_upper (m_last_known_status data)
       in
       if current_status \<noteq> last_status
       then
         let email = m_email data;
             w1 = w\<lparr>monitor_log :=
                      monitor_log w @ [StatusChanged email last_status current_status]\<rparr>;
             w2 = (if current_status \<in> {''AMOUNT TAKEN'', ''DISABLED''}
                   then enqueue_taken py_float clk account_id email current_status account_info w1
                   else w1);
             w3 = (if current_status \<in> {''BACKUP CODE WRONG'', ''WRONG DETAILS''}
                   then w2\<lparr>monitor_log := monitor_log w2 @ [NeedsAttention email current_status]\<rparr>
                   else if current_status = ''TRANSFER LIST IS FULL''
                   then w2\<lparr>monitor_log := monitor_log w2 @ [TransferListFull email]\<rparr>
                   else w2);
             w4 = w3\<lparr>monitored_file :=
                       update_monitored_account_status account_id current_status
                         (clk (ticks w3)) (monitored_file w3),
                     ticks := ticks w3 + 1\<rparr>
         in (changes_detected + 1,
             send_status_notification email account_id last_status current_status
               (m_chat_id data) account_info (m_source data) w4)
       else
         (changes_detected,
          w\<lparr>monitored_file :=
               update_monitored_account_status account_id current_status
                 (clk (ticks w)) (monitored_file w),
            ticks := ticks w + 1\<rparr>))"

fun check_accounts ::
  "(string \<Rightarrow> string) \<Rightarrow> (string \<Rightarrow> pyfloat option) \<Rightarrow> (nat \<Rightarrow> time) \<Rightarrow> (string \<Rightarrow> account option) \<Rightarrow>
   accounts_db \<Rightarrow> int \<times> world \<Rightarrow> int \<times> world"
where
  "check_accounts py_upper py_float clk by_id [] s = s"
| "check_accounts py_upper py_float clk by_id ((key, data) # rest) s =
     check_accounts py_upper py_float clk by_id rest
       (check_account py_upper py_float clk by_id data s)"

text \<open>
  One pass of the \<^verbatim>\<open>while True\<close> loop. \<open>all_accounts\<close> is what
  \<^verbatim>\<open>api_manager.fetch_all_accounts_batch()\<close> returned; the result is the sleep that ends
  the pass, a fixed one or the band of the random one.
\<close>

datatype cycle_sleep = SleepFixed rat | SleepUniform rat rat

definition monitor_cycle ::
  "(string \<Rightarrow> string) \<Rightarrow> (string \<Rightarrow> pyfloat option) \<Rightarrow> (nat \<Rightarrow> time) \<Rightarrow> account list \<Rightarrow> string \<Rightarrow> int option \<Rightarrow>
   world \<Rightarrow> cycle_sleep \<times> world"
where
  "monitor_cycle py_upper py_float clk all_accounts default_group_name default_chat_id w =
     (let accounts = monitored_file w;
          by_id = accounts_by_id all_accounts;
          (existing_ids, auto_added, w1) =
             auto_discovery py_upper clk default_group_name default_chat_id all_accounts
               (existing_ids_of accounts, False, w);
          accounts1 = (if auto_added then monitored_file w1 else accounts)
      in
      if accounts1 = [] then (SleepFixed 30, w1)
      else
        let (changes_detected, w2) =
              check_accounts py_upper py_float clk by_id accounts1 (0, w1);
            (sc, st) = adjust_ttl changes_detected (smart_cache w2, stats w2);
            w3 = w2\<lparr>smart_cache := sc, stats := st\<rparr>;
            statuses = map (\<lambda>(key, d). m_last_known_status d) accounts1
        in
        (if ''LOGGING'' \<in> set statuses then SleepUniform 10 20
         else if ''AVAILABLE'' \<in> set statuses \<or> ''ACTIVE'' \<in> set statuses
         then SleepUniform 30 60
         else SleepUniform 60 120,
         w3))"

section \<open>core.py: wait\_for\_status\_change\<close>

text \<open>
  \<^verbatim>\<open>api_manager\<close> and \<^verbatim>\<open>message_obj\<close> are arguments of the function. What their awaited
  calls do is the input of the model: the call number \<open>n\<close> of \<^verbatim>\<open>search_sender_by_email\<close>
  (in the first loop) and of \<^verbatim>\<open>search_sender_by_id\<close> (in the second) returns a value or
  raises, and the call number \<open>n\<close> of \<^verbatim>\<open>edit_text\<close> in either loop raises or not.
  \<^verbatim>\<open>OptimizedAPIManager\<close> writes \<^verbatim>\<open>smart_cache\<close> through \<^verbatim>\<open>update_cache\<close> only, that is the
  snapshot fields, which this function never reads; they are left as they are here.
\<close>

datatype 'a outcome = Raises | Returns 'a

record session_env =
  clock :: "nat \<Rightarrow> time"
  search_sender_by_email :: "nat \<Rightarrow> account option outcome"
  search_sender_by_id :: "nat \<Rightarrow> account option outcome"
  initial_edit_raises :: "nat \<Rightarrow> bool"
  burst_edit_raises :: "nat \<Rightarrow> bool"

text \<open>The result: the returned pair, or an exception that leaves the function.\<close>

datatype session_result = Returned bool "account option" | Raised

text \<open>The local variables that the second loop reads and writes.\<close>

record session_locals =
  total_elapsed :: rat
  last_status :: "string option"
  status_changes :: "(string \<times> time \<times> rat) list"
  stable_count :: int
  account_info :: "account option"

text \<open>
  Lines 330--356, the loop \<^verbatim>\<open>for initial_attempt in range(1, 15)\<close>: \<open>n\<close> attempts are left
  and \<open>initial_attempt\<close> is the number of the next one. The state is \<open>account_id\<close>,
  \<open>account_info\<close>, \<open>total_elapsed\<close> and the world. Neither await is inside a
  \<^verbatim>\<open>try\<close>: an exception leaves the function.
\<close>

fun initial_search ::
  "session_env \<Rightarrow> string \<Rightarrow> nat \<Rightarrow> nat \<Rightarrow> string option \<times> account option \<times> rat \<times> world \<Rightarrow>
   (string option \<times> account option \<times> rat \<times> world) outcome"
where
  "initial_search env email 0 initial_attempt s = Returns s"
| "initial_search env email (Suc n) initial_attempt (account_id, info, elapsed, w) =
     (case search_sender_by_email env initial_attempt of
        Raises \<Rightarrow> Raises
      | Returns found \<Rightarrow>
          let account_id1 =
                (if truthy_dict found then map_of (the found) ''idAccount'' else account_id)
          in
          if truthy_dict found \<and> truthy_str account_id1
          then
            let (sc, st) = activate_burst_mode (the account_id1) (clock env (ticks w))
                             (smart_cache w, stats w);
                w1 = w\<lparr>smart_cache := sc, stats := st,
                       pending_file :=
                         add_to_pending_queue_immediately email (the account_id1)
                           (clock env (ticks w + 1)) (pending_file w),
                       ticks := ticks w + 2\<rparr>
            in Returns (account_id1, found, elapsed, w1)
          else if initial_edit_raises env initial_attempt then Raises
          else initial_search env email n (Suc initial_attempt)
                 (account_id1, found, elapsed + 3, w))"

text \<open>
  Lines 442--465, the branch \<^verbatim>\<open>if is_final\<close>: the admission check, then the two
  assignments that end burst mode for the session.
\<close>

definition admit ::
  "session_env \<Rightarrow> string \<Rightarrow> string \<Rightarrow> int \<Rightarrow> string \<Rightarrow> string \<Rightarrow> account \<Rightarrow> world \<Rightarrow> world"
where
  "admit env email account_id chat_id default_group_name status info w =
     (if status = ''AVAILABLE'' \<and> dget info ''Group'' '''' = default_group_name
      then w\<lparr>monitored_file :=
                add_monitored_account email account_id status chat_id ''bot''
                  (clock env (ticks w)) (clock env (ticks w + 1)) (monitored_file w),
              ticks := ticks w + 2\<rparr>
      else w)"

definition end_burst :: "string \<Rightarrow> world \<Rightarrow> world" where
  "end_burst account_id w =
     w\<lparr>smart_cache :=
         (smart_cache w)\<lparr>burst_mode_active := False,
                          burst_targets := burst_targets (smart_cache w) - {account_id}\<rparr>\<rparr>"

text \<open>
  Lines 367--479, one attempt of the second loop. The result is \<open>Some info\<close> when the
  attempt returns \<^verbatim>\<open>(True, account_info)\<close> and \<open>None\<close> when the loop goes on. An exception
  inside the \<^verbatim>\<open>try\<close> keeps what was assigned before it and adds 2 to \<open>total_elapsed\<close>.
  The clock read of \<^verbatim>\<open>check_burst_mode\<close> is line 92; the one of a status change is line 391.
\<close>

definition burst_attempt ::
  "(string \<Rightarrow> string) \<Rightarrow> session_env \<Rightarrow> string \<Rightarrow> string \<Rightarrow> int \<Rightarrow> string \<Rightarrow> nat \<Rightarrow> session_locals \<times> world \<Rightarrow>
   account option \<times> session_locals \<times> world"
where
  "burst_attempt py_upper env email account_id chat_id default_group_name attempt = (\<lambda>(l, w).
     case check_burst_mode (clock env (ticks w)) (smart_cache w) of
       Inl err \<Rightarrow> (None, l\<lparr>total_elapsed := total_elapsed l + 2\<rparr>, w)
     | Inr sc \<Rightarrow>
         let w1 = w\<lparr>smart_cache := sc,
                    ticks := (if burst_mode_active (smart_cache w) then ticks w + 1 else ticks w)\<rparr>
         in
         (case search_sender_by_id env attempt of
           Raises \<Rightarrow> (None, l\<lparr>total_elapsed := total_elapsed l + 2\<rparr>, w1)
         | Returns found \<Rightarrow>
             let l1 = l\<lparr>account_info := found\<rparr> in
             if \<not> truthy_dict found then (None, l1, w1)
             else
               let info = the found;
                   status = py_upper (dget info ''Status'' STATUS_UNDEFINED);
                   (l2, w2) =
                     (if Some status \<noteq> last_status l1
                      then
                        (l1\<lparr>status_changes :=
                              status_changes l1 @
                                [(status, clock env (ticks w1), total_elapsed l1)],
                            last_status := Some status,
                            stable_count := 0\<rparr>,
                         w1\<lparr>stats :=
                              (if truthy_str (last_status l1) \<and> status \<in> FINAL_STATUSES
                               then (stats w1)\<lparr>fast_detections := fast_detections (stats w1) + 1\<rparr>
                               else stats w1),
                            ticks := ticks w1 + 1\<rparr>)
                      else (l1\<lparr>stable_count := stable_count l1 + 1\<rparr>, w1));
                   is_final = (status \<in> FINAL_STATUSES);
                   is_transitional = (status \<in> TRANSITIONAL_STATUSES)
               in
               if burst_edit_raises env attempt
               then (None, l2\<lparr>total_elapsed := total_elapsed l2 + 2\<rparr>, w2)
               else if is_final
               then (Some info, l2,
                     end_burst account_id
                       (admit env email account_id chat_id default_group_name status info w2))
               else
                 let interval =
                       (if burst_mode_active (smart_cache w2) then BURST_MODE_INTERVAL
                        else if is_transitional then 4 else 5)
                 in (None, l2\<lparr>total_elapsed := total_elapsed l2 + interval\<rparr>, w2)))"

text \<open>
  The loop \<^verbatim>\<open>for attempt in range(1, max_attempts + 1)\<close>: \<open>n\<close> attempts are left and
  \<open>attempt\<close> is the number of the next one. \<open>None\<close> is the loop running out.
\<close>

fun burst_attempts ::
  "(string \<Rightarrow> string) \<Rightarrow> session_env \<Rightarrow> string \<Rightarrow> string \<Rightarrow> int \<Rightarrow> string \<Rightarrow> nat \<Rightarrow> nat \<Rightarrow> session_locals \<times> world \<Rightarrow>
   account option \<times> session_locals \<times> world"
where
  "burst_attempts py_upper env email account_id chat_id default_group_name 0 attempt (l, w) =
     (None, l, w)"
| "burst_attempts py_upper env email account_id chat_id default_group_name (Suc n) attempt (l, w) =
     (case burst_attempt py_upper env email account_id chat_id default_group_name attempt (l, w) of
        (Some info, l1, w1) \<Rightarrow> (Some info, l1, w1)
      | (None, l1, w1) \<Rightarrow>
          burst_attempts py_upper env email account_id chat_id default_group_name n (Suc attempt)
            (l1, w1))"

text \<open>
  Lines 481--498, after the loop has run out; \<open>info\<close> is the variable \<^verbatim>\<open>account_info\<close>
  as the loop left it.
\<close>

definition attempts_exhausted ::
  "(string \<Rightarrow> string) \<Rightarrow> session_env \<Rightarrow> string \<Rightarrow> string \<Rightarrow> int \<Rightarrow> string \<Rightarrow> account option \<Rightarrow> world \<Rightarrow>
   session_result \<times> world"
where
  "attempts_exhausted py_upper env email account_id chat_id default_group_name info w =
     (let w1 = w\<lparr>smart_cache := (smart_cache w)\<lparr>burst_mode_active := False\<rparr>\<rparr>;
          w2 = (if account_id \<noteq> ''''
                then w1\<lparr>smart_cache :=
                          (smart_cache w1)\<lparr>burst_targets :=
                                             burst_targets (smart_cache w1) - {account_id}\<rparr>\<rparr>
                else w1)
      in
      if truthy_dict info
      then (Returned True info,
            admit env email account_id chat_id default_group_name
              (py_upper (dget (the info) ''Status'' '''')) (the info) w2)
      else (Returned False None, w2))"

definition max_attempts :: nat where "max_attempts = 40"

text \<open>
  \<^verbatim>\<open>wait_for_status_change\<close>. \<^verbatim>\<open>range(1, 15)\<close> is 14 attempts. The sleeps and the texts
  shown to the user are not part of the state.
\<close>

definition wait_for_status_change ::
  "(string \<Rightarrow> string) \<Rightarrow> session_env \<Rightarrow> string \<Rightarrow> int \<Rightarrow> string \<Rightarrow> world \<Rightarrow> session_result \<times> world"
where
  "wait_for_status_change py_upper env email chat_id default_group_name w =
     (case initial_search env email 14 1 (None, None, 0, w) of
        Raises \<Rightarrow> (Raised, w)
      | Returns (account_id, info, elapsed, w1) \<Rightarrow>
          if \<not> truthy_str account_id then (Returned False None, w1)
          else
            (case burst_attempts py_upper env email (the account_id) chat_id default_group_name
                    max_attempts 1
                    (\<lparr>total_elapsed = elapsed, last_status = None, status_changes = [],
                      stable_count = 0, account_info = info\<rparr>, w1) of
               (Some final_info, l, w2) \<Rightarrow> (Returned True (Some final_info), w2)
             | (None, l, w2) \<Rightarrow>
                 attempts_exhausted py_upper env email (the account_id) chat_id default_group_name
                   (account_info l) w2))"

section \<open>Notation for the statements\<close>

text \<open>
  The identifier of a snapshot account, the key under which \<^verbatim>\<open>add_monitored_account\<close> files
  it, and the test of lines 613--618 that lets the discovery loop add it.
\<close>

abbreviation acc_id :: "account \<Rightarrow> string" where
  "acc_id r \<equiv> dget r ''idAccount'' ''''"

abbreviation acc_key :: "account \<Rightarrow> string" where
  "acc_key r \<equiv> monitored_key (acc_id r) (dget r ''Sender'' '''')"

abbreviation discoverable ::
  "(string \<Rightarrow> string) \<Rightarrow> string \<Rightarrow> string set \<Rightarrow> account \<Rightarrow> bool"
where
  "discoverable py_upper g ids r \<equiv>
     acc_id r \<noteq> '''' \<and> acc_id r \<notin> ids \<and>
     py_upper (dget r ''Status'' '''') = ''AVAILABLE'' \<and> dget r ''Group'' '''' = g"

abbreviation discovered_world :: "(nat \<Rightarrow> time) \<Rightarrow> int option \<Rightarrow> account \<Rightarrow> world \<Rightarrow> world" where
  "discovered_world clk c r w \<equiv>
     w\<lparr>monitored_file :=
         add_monitored_account (dget r ''Sender'' '''') (acc_id r) ''AVAILABLE'' (chat_id_or_0 c)
           ''manual'' (clk (ticks w)) (clk (ticks w + 1)) (monitored_file w),
       ticks := ticks w + 2,
       monitor_log := monitor_log w @ [AutoMonitored (dget r ''Sender'' '''')]\<rparr>"


section \<open>Sample inputs\<close>

definition acc7 :: account where
  "acc7 = [(''idAccount'', ''7''), (''Sender'', ''a@x.com''), (''Status'', ''LOGGING''),
           (''Group'', ''G'')]"

definition stats0 :: request_stats where
  "stats0 = \<lparr>fast_detections = 0, burst_activations = 0, adaptive_adjustments = 0\<rparr>"

definition queue1 :: "taken_item list" where
  "queue1 = add_to_taken_queue ''9'' ''b@x.com'' ''DISABLED'' ''40'' 20
              (add_to_taken_queue ''7'' ''a@x.com'' ''AMOUNT_TAKEN'' ''1500'' 10 [])"

definition queue2 :: "taken_item list" where
  "queue2 = add_to_taken_queue ''7'' ''a@x.com'' ''AMOUNT_TAKEN'' ''2000'' 30 queue1"

text \<open>A clock that returns the number of the read, and the state of a fresh process.\<close>

definition clk0 :: "nat \<Rightarrow> time" where
  "clk0 n = of_nat n"

definition world0 :: world where
  "world0 = \<lparr>smart_cache = init_cache, stats = stats0, monitored_file = [], pending_file = [],
             taken_file = [], sent = [], monitor_log = [], ticks = 0\<rparr>"

text \<open>
  \<^verbatim>\<open>float\<close> at the strings of the samples: \<^verbatim>\<open>float("1500")\<close> is 1500, \<^verbatim>\<open>float("0")\<close> is 0,
  \<^verbatim>\<open>float("")\<close> and \<^verbatim>\<open>float("abc")\<close> raise \<^verbatim>\<open>ValueError\<close>. It is used at these four
  strings only.
\<close>

definition sample_float :: "string \<Rightarrow> pyfloat option" where
  "sample_float s =
     (if s = ''1500'' then Some (Finite 1500) else if s = ''0'' then Some (Finite 0) else None)"

text \<open>
  \<^verbatim>\<open>str.upper()\<close> on strings of ASCII characters, which all strings of the samples are.
\<close>

definition ascii_upper_char :: "char \<Rightarrow> char" where
  "ascii_upper_char c =
     (case map_of (zip ''abcdefghijklmnopqrstuvwxyz'' ''ABCDEFGHIJKLMNOPQRSTUVWXYZ'') c of
        None \<Rightarrow> c
      | Some u \<Rightarrow> u)"

definition ascii_upper :: "string \<Rightarrow> string" where
  "ascii_upper s = map ascii_upper_char s"

text \<open>The records of the discovery scenario, and one without identifier.\<close>

definition acc9 :: account where
  "acc9 = [(''idAccount'', ''9''), (''Sender'', ''i@x.com''), (''Status'', ''AVAILABLE''),
           (''Group'', ''OTHER'')]"

definition acc10 :: account where
  "acc10 = [(''idAccount'', ''10''), (''Sender'', ''j@x.com''), (''Status'', ''AVAILABLE''),
            (''Group'', ''G'')]"

definition acc_noid :: account where
  "acc_noid = [(''idAccount'', ''''), (''Sender'', ''n@x.com''), (''Status'', ''AVAILABLE''),
               (''Group'', ''G'')]"

text \<open>Two records with different identifiers and the same key \<^verbatim>\<open>1_2_x\<close>.\<close>

definition acc_u1 :: account where
  "acc_u1 = [(''idAccount'', ''1_2''), (''Sender'', ''x''), (''Status'', ''AVAILABLE''),
             (''Group'', ''G'')]"

definition acc_u2 :: account where
  "acc_u2 = [(''idAccount'', ''1''), (''Sender'', ''2_x''), (''Status'', ''AVAILABLE''),
             (''Group'', ''G'')]"

text \<open>A monitored account last seen \<^verbatim>\<open>AVAILABLE\<close>, and what the snapshot says of it next.\<close>

definition tracked7 :: monitored_account where
  "tracked7 = \<lparr>m_email = ''a@x.com'', m_account_id = ''7'', m_last_known_status = ''AVAILABLE'',
               m_chat_id = 555, m_source = ''bot'', m_added_at = 0, m_last_check = 0\<rparr>"

definition world7 :: world where
  "world7 = world0\<lparr>monitored_file := [(''7_a@x.com'', tracked7)]\<rparr>"

text \<open>
  The same account monitored twice, under the address as the source spells it and as the
  user typed it; \<open>tracked7\<close> is the second entry of the file.
\<close>

definition tracked7_first :: monitored_account where
  "tracked7_first =
     \<lparr>m_email = ''A@x.com'', m_account_id = ''7'', m_last_known_status = ''AVAILABLE'',
      m_chat_id = 0, m_source = ''manual'', m_added_at = 0, m_last_check = 0\<rparr>"

definition world77 :: world where
  "world77 = world0\<lparr>monitored_file := [(''7_A@x.com'', tracked7_first), (''7_a@x.com'', tracked7)]\<rparr>"

definition taken7 :: "string \<Rightarrow> account" where
  "taken7 v = [(''idAccount'', ''7''), (''Sender'', ''a@x.com''), (''Status'', ''AMOUNT TAKEN''),
               (''Taken'', v), (''Group'', ''G'')]"

text \<open>
  Sessions for the address of account 7. The first lookup by address finds the account, in
  status \<^verbatim>\<open>LOGGING\<close>. In \<open>env_stuck\<close> every lookup by identifier returns it unchanged; in
  \<open>env_vanish\<close> the lookup of attempt 40 returns nothing; in \<open>env_final\<close> every lookup by
  identifier returns it in status \<^verbatim>\<open>AVAILABLE\<close>. No call raises.
\<close>

definition acc7_final :: account where
  "acc7_final = [(''idAccount'', ''7''), (''Sender'', ''a@x.com''), (''Status'', ''AVAILABLE''),
                 (''Group'', ''G'')]"

definition env_stuck :: session_env where
  "env_stuck =
     \<lparr>clock = clk0,
      search_sender_by_email = (\<lambda>n. Returns (Some acc7)),
      search_sender_by_id = (\<lambda>n. Returns (Some acc7)),
      initial_edit_raises = (\<lambda>n. False),
      burst_edit_raises = (\<lambda>n. False)\<rparr>"


definition env_final :: session_env where
  "env_final =
     \<lparr>clock = clk0,
      search_sender_by_email = (\<lambda>n. Returns (Some acc7)),
      search_sender_by_id = (\<lambda>n. Returns (Some acc7_final)),
      initial_edit_raises = (\<lambda>n. False),
      burst_edit_raises = (\<lambda>n. False)\<rparr>"



text \<open>A process in which another session has activated burst mode for the account 8.\<close>

definition world8 :: world where
  "world8 = world0\<lparr>smart_cache := fst (activate_burst_mode ''8'' 0 (init_cache, stats0))\<rparr>"

text \<open>The state after the first loop of a session for account 7 that started in \<open>w\<close>.\<close>

definition found7 :: "world \<Rightarrow> world" where
  "found7 w =
     w\<lparr>smart_cache := fst (activate_burst_mode ''7'' (clk0 (ticks w)) (smart_cache w, stats w)),
       stats := snd (activate_burst_mode ''7'' (clk0 (ticks w)) (smart_cache w, stats w)),
       pending_file :=
         add_to_pending_queue_immediately ''a@x.com'' ''7'' (clk0 (ticks w + 1)) (pending_file w),
       ticks := ticks w + 2\<rparr>"


section \<open>The snapshot cache\<close>

text \<open>
  C1. \<open>is_cache_valid\<close> is false when the snapshot or its timestamp is absent, false whenever
  burst mode is active, and otherwise true exactly when the age \<open>now - fetchedAt\<close> is below
  the TTL.
\<close>

theorem is_cache_valid_spec:
  "(cache sc = None \<or> cache_timestamp sc = None \<longrightarrow> \<not> is_cache_valid now sc) \<and>
   (burst_mode_active sc \<longrightarrow> \<not> is_cache_valid now sc) \<and>
   (\<forall>snap ts. cache sc = Some snap \<and> cache_timestamp sc = Some ts \<and> \<not> burst_mode_active sc
       \<longrightarrow> is_cache_valid now sc = (now - ts < cache_ttl sc))"
  by (auto simp: is_cache_valid_def split: option.splits)

theorem is_cache_valid_spec_witness:
  "\<not> is_cache_valid 100 init_cache \<and>
   \<not> is_cache_valid 11
       (fst (activate_burst_mode ''7'' 10 (update_cache [acc7] True 10 10 init_cache, stats0))) \<and>
   is_cache_valid 99 (update_cache [acc7] True 10 10 init_cache) \<and>
   \<not> is_cache_valid 100 (update_cache [acc7] True 10 10 init_cache)"
  using is_cache_valid_spec [of init_cache 100]
    is_cache_valid_spec
      [of "fst (activate_burst_mode ''7'' 10 (update_cache [acc7] True 10 10 init_cache, stats0))" 11]
    is_cache_valid_spec [of "update_cache [acc7] True 10 10 init_cache" 99]
    is_cache_valid_spec [of "update_cache [acc7] True 10 10 init_cache" 100]
  by (simp add: init_cache_def update_cache_def activate_burst_mode_def CACHE_TTL_NORMAL_def)

text \<open>
  C3, as the code has it. A failed update never touches \<open>last_successful_cache\<close> or its
  timestamp. When the last good snapshot is non-empty, the current snapshot becomes that
  snapshot and the fetch timestamp becomes the timestamp of that snapshot; so the fetch
  timestamp keeps its prior value exactly when the two already agreed.
\<close>

theorem update_cache_failure_fallback:
  "last_successful_cache (update_cache new_data False t1 t2 sc) = last_successful_cache sc \<and>
   last_successful_timestamp (update_cache new_data False t1 t2 sc) = last_successful_timestamp sc \<and>
   (\<forall>a as. last_successful_cache sc = Some (a # as) \<longrightarrow>
      cache (update_cache new_data False t1 t2 sc) = Some (a # as) \<and>
      cache_timestamp (update_cache new_data False t1 t2 sc) = last_successful_timestamp sc \<and>
      (cache_timestamp sc = last_successful_timestamp sc \<longrightarrow>
         cache_timestamp (update_cache new_data False t1 t2 sc) = cache_timestamp sc))"
  by (auto simp: update_cache_def split: option.splits list.splits)

theorem update_cache_failure_fallback_witness:
  "last_successful_cache (update_cache [acc7] True 10 10 init_cache) = Some [acc7] \<and>
   cache_timestamp (update_cache [acc7] True 10 10 init_cache) =
     last_successful_timestamp (update_cache [acc7] True 10 10 init_cache) \<and>
   cache (update_cache [] False 50 50 (update_cache [acc7] True 10 10 init_cache)) = Some [acc7] \<and>
   cache_timestamp (update_cache [] False 50 50 (update_cache [acc7] True 10 10 init_cache)) = Some 10"
  using update_cache_failure_fallback [of "[]" 50 50 "update_cache [acc7] True 10 10 init_cache"]
  by (simp add: update_cache_def init_cache_def)

text \<open>
  C3, as the specification states it, fails twice. After a success at time 10 and the
  invalidation done by a successful \<^verbatim>\<open>add_sender\<close>, a failed update moves the fetch
  timestamp from \<^verbatim>\<open>None\<close> to 10. After a successful fetch of an empty snapshot and the
  same invalidation, a failed update leaves the current snapshot \<^verbatim>\<open>None\<close>, which is not
  the last good snapshot \<^verbatim>\<open>[]\<close>.
\<close>

theorem update_cache_failure_counterexample:
  "last_successful_cache (invalidate_cache (update_cache [acc7] True 10 10 init_cache)) \<noteq> None \<and>
   cache_timestamp
     (update_cache [] False 50 50 (invalidate_cache (update_cache [acc7] True 10 10 init_cache)))
     \<noteq> cache_timestamp (invalidate_cache (update_cache [acc7] True 10 10 init_cache)) \<and>
   last_successful_cache (invalidate_cache (update_cache [] True 10 10 init_cache)) \<noteq> None \<and>
   cache (update_cache [] False 50 50 (invalidate_cache (update_cache [] True 10 10 init_cache)))
     \<noteq> last_successful_cache (invalidate_cache (update_cache [] True 10 10 init_cache))"
  by (simp add: update_cache_def invalidate_cache_def init_cache_def)

text \<open>
  C10. The lookup returns the first cached account whose \<^verbatim>\<open>idAccount\<close> equals
  \<^verbatim>\<open>str(account_id)\<close> (\<open>find\<close> returns the first element that satisfies the test and
  \<open>None\<close> when there is none, in particular on the empty list); it returns \<open>None\<close> when
  the cache is absent; an integer and its decimal string find the same account.
\<close>

lemma scan_by_id_find:
  "scan_by_id accounts account_id =
     find (\<lambda>a. dget a ''idAccount'' '''' = py_str account_id) accounts"
  by (induction accounts) simp_all

theorem get_account_by_id_spec:
  "(cache sc = None \<longrightarrow> get_account_by_id account_id sc = None) \<and>
   (\<forall>accounts. cache sc = Some accounts \<longrightarrow>
      get_account_by_id account_id sc =
        find (\<lambda>a. dget a ''idAccount'' '''' = py_str account_id) accounts) \<and>
   get_account_by_id (PInt n) sc = get_account_by_id (PStr (py_str (PInt n))) sc"
  by (auto simp: get_account_by_id_def scan_by_id_find split: option.splits list.splits)

lemma py_str_7: "py_str (PInt 7) = ''7''"
  by (simp add: digits_of.simps)

lemma acc7_id: "dget acc7 ''idAccount'' '''' = ''7''"
  by (simp add: acc7_def dget_def)

theorem get_account_by_id_spec_witness:
  "get_account_by_id (PInt 7) init_cache = None \<and>
   get_account_by_id (PInt 7) (update_cache [] True 10 10 init_cache) = None \<and>
   get_account_by_id (PInt 7) (update_cache [acc7] True 10 10 init_cache) = Some acc7 \<and>
   get_account_by_id (PStr ''7'') (update_cache [acc7] True 10 10 init_cache) = Some acc7 \<and>
   get_account_by_id (PStr ''8'') (update_cache [acc7] True 10 10 init_cache) = None"
proof -
  have c0: "cache init_cache = None"
    by (simp add: init_cache_def)
  have c1: "cache (update_cache [] True 10 10 init_cache) = Some []"
    by (simp add: update_cache_def)
  have c2: "cache (update_cache [acc7] True 10 10 init_cache) = Some [acc7]"
    by (simp add: update_cache_def)
  show ?thesis
    using get_account_by_id_spec [of init_cache "PInt 7" 7] c0
      get_account_by_id_spec [of "update_cache [] True 10 10 init_cache" "PInt 7" 7] c1
      get_account_by_id_spec [of "update_cache [acc7] True 10 10 init_cache" "PInt 7" 7] c2
      get_account_by_id_spec [of "update_cache [acc7] True 10 10 init_cache" "PStr ''7''" 7]
      get_account_by_id_spec [of "update_cache [acc7] True 10 10 init_cache" "PStr ''8''" 7]
    by (simp add: py_str_7 acc7_id del: py_str.simps(2))
qed

section \<open>The TTL controller\<close>

text \<open>
  C2. One call of \<open>adjust_ttl\<close>: five or more changes give the minimum TTL and reset the
  quiet counter; two to four give the normal TTL and reset it; zero or one increment the
  counter, and the TTL keeps its value while the counter is below 3 and becomes the maximum
  once the counter has reached 3.
\<close>

theorem adjust_ttl_spec:
  assumes "adjust_ttl c (sc, st) = (sc', st')"
  shows "(c \<ge> 5 \<longrightarrow> cache_ttl sc' = CACHE_TTL_MIN \<and> consecutive_quiet_cycles sc' = 0) \<and>
         (2 \<le> c \<and> c \<le> 4 \<longrightarrow>
            cache_ttl sc' = CACHE_TTL_NORMAL \<and> consecutive_quiet_cycles sc' = 0) \<and>
         (c = 0 \<or> c = 1 \<longrightarrow>
            consecutive_quiet_cycles sc' = consecutive_quiet_cycles sc + 1 \<and>
            (consecutive_quiet_cycles sc' < 3 \<longrightarrow> cache_ttl sc' = cache_ttl sc) \<and>
            (consecutive_quiet_cycles sc' \<ge> 3 \<longrightarrow> cache_ttl sc' = CACHE_TTL_MAX))"
  using assms by (auto simp: adjust_ttl_def Let_def split: if_splits)

theorem adjust_ttl_spec_witness:
  "cache_ttl (fst (adjust_ttl 5 (init_cache, stats0))) = CACHE_TTL_MIN \<and>
   cache_ttl (fst (adjust_ttl 3 (adjust_ttl 5 (init_cache, stats0)))) = CACHE_TTL_NORMAL \<and>
   cache_ttl (fst (adjust_ttl 1 (adjust_ttl 5 (init_cache, stats0)))) = CACHE_TTL_MIN \<and>
   cache_ttl (fst (adjust_ttl 0 (adjust_ttl 1 (adjust_ttl 0 (init_cache, stats0))))) = CACHE_TTL_MAX"
  using adjust_ttl_spec [of 5 init_cache stats0 "fst (adjust_ttl 5 (init_cache, stats0))"
                           "snd (adjust_ttl 5 (init_cache, stats0))"]
    adjust_ttl_spec [of 3 "fst (adjust_ttl 5 (init_cache, stats0))"
                          "snd (adjust_ttl 5 (init_cache, stats0))"
                          "fst (adjust_ttl 3 (adjust_ttl 5 (init_cache, stats0)))"
                          "snd (adjust_ttl 3 (adjust_ttl 5 (init_cache, stats0)))"]
    adjust_ttl_spec [of 1 "fst (adjust_ttl 5 (init_cache, stats0))"
                          "snd (adjust_ttl 5 (init_cache, stats0))"
                          "fst (adjust_ttl 1 (adjust_ttl 5 (init_cache, stats0)))"
                          "snd (adjust_ttl 1 (adjust_ttl 5 (init_cache, stats0)))"]
    adjust_ttl_spec [of 0 "fst (adjust_ttl 1 (adjust_ttl 0 (init_cache, stats0)))"
                          "snd (adjust_ttl 1 (adjust_ttl 0 (init_cache, stats0)))"
                          "fst (adjust_ttl 0 (adjust_ttl 1 (adjust_ttl 0 (init_cache, stats0))))"
                          "snd (adjust_ttl 0 (adjust_ttl 1 (adjust_ttl 0 (init_cache, stats0))))"]
  by (simp add: adjust_ttl_def init_cache_def stats0_def Let_def)

text \<open>
  Over a whole run from the initial state the quiet counter is the length of the trailing
  streak of cycles with fewer than two changes, and the TTL is the maximum exactly when
  that streak has at least three cycles.
\<close>

lemma adjust_ttl_quiet_step:
  "consecutive_quiet_cycles (fst (adjust_ttl c s)) =
     (if c \<ge> 2 then 0 else consecutive_quiet_cycles (fst s) + 1)"
  by (cases s) (simp add: adjust_ttl_def Let_def)

lemma adjust_ttl_max_iff_step:
  assumes "cache_ttl (fst s) = CACHE_TTL_MAX \<longleftrightarrow> consecutive_quiet_cycles (fst s) \<ge> 3"
    and "consecutive_quiet_cycles (fst s) \<ge> 0"
  shows "cache_ttl (fst (adjust_ttl c s)) = CACHE_TTL_MAX
           \<longleftrightarrow> consecutive_quiet_cycles (fst (adjust_ttl c s)) \<ge> 3"
  using assms
  by (cases s)
     (auto simp: adjust_ttl_def Let_def CACHE_TTL_MAX_def CACHE_TTL_MIN_def CACHE_TTL_NORMAL_def)

lemma adjust_ttl_run:
  "consecutive_quiet_cycles (fst (fold adjust_ttl cs (init_cache, st))) =
      int (length (takeWhile (\<lambda>c. c < 2) (rev cs))) \<and>
   (cache_ttl (fst (fold adjust_ttl cs (init_cache, st))) = CACHE_TTL_MAX
      \<longleftrightarrow> 3 \<le> length (takeWhile (\<lambda>c. c < 2) (rev cs)))"
proof (induction cs rule: rev_induct)
  case Nil
  show ?case by (simp add: init_cache_def CACHE_TTL_MAX_def CACHE_TTL_NORMAL_def)
next
  case (snoc c cs)
  let ?s = "fold adjust_ttl cs (init_cache, st)"
  have q: "consecutive_quiet_cycles (fst ?s) = int (length (takeWhile (\<lambda>c. c < 2) (rev cs)))"
    using snoc by simp
  have m: "cache_ttl (fst ?s) = CACHE_TTL_MAX \<longleftrightarrow> consecutive_quiet_cycles (fst ?s) \<ge> 3"
    using snoc by simp
  have q': "consecutive_quiet_cycles (fst (adjust_ttl c ?s)) =
      int (length (takeWhile (\<lambda>c. c < 2) (rev (cs @ [c]))))"
    using q by (simp add: adjust_ttl_quiet_step)
  have "cache_ttl (fst (adjust_ttl c ?s)) = CACHE_TTL_MAX
           \<longleftrightarrow> consecutive_quiet_cycles (fst (adjust_ttl c ?s)) \<ge> 3"
    using m q by (intro adjust_ttl_max_iff_step) simp_all
  with q' show ?case by simp
qed

section \<open>The burst controller\<close>

text \<open>
  C4. After \<open>activate_burst_mode\<close> burst is active and the identifier is in the target set,
  which is the old one with the identifier added. When burst was already active the start
  time is not touched; when it was inactive the start time is the clock read of the call.
  A second activation, with any identifier at any time, changes neither the flag nor the
  start time.
\<close>

theorem activate_burst_mode_spec:
  assumes "activate_burst_mode account_id now (sc, st) = (sc', st')"
  shows "burst_mode_active sc' \<and>
         account_id \<in> burst_targets sc' \<and>
         burst_targets sc' = insert account_id (burst_targets sc) \<and>
         (burst_mode_active sc \<longrightarrow> burst_mode_started sc' = burst_mode_started sc) \<and>
         (\<not> burst_mode_active sc \<longrightarrow> burst_mode_started sc' = Some now) \<and>
         burst_mode_active (fst (activate_burst_mode other later (sc', st'))) \<and>
         burst_mode_started (fst (activate_burst_mode other later (sc', st'))) =
           burst_mode_started sc' \<and>
         burst_targets (fst (activate_burst_mode other later (sc', st'))) =
           insert other (burst_targets sc')"
  using assms by (auto simp: activate_burst_mode_def split: if_splits)

theorem activate_burst_mode_spec_witness:
  "burst_mode_started (fst (activate_burst_mode ''7'' 10 (init_cache, stats0))) = Some 10 \<and>
   burst_mode_started
     (fst (activate_burst_mode ''8'' 40 (activate_burst_mode ''7'' 10 (init_cache, stats0)))) = Some 10 \<and>
   burst_targets
     (fst (activate_burst_mode ''8'' 40 (activate_burst_mode ''7'' 10 (init_cache, stats0)))) =
     {''7'', ''8''}"
  using activate_burst_mode_spec
          [of "''7''" 10 init_cache stats0
              "fst (activate_burst_mode ''7'' 10 (init_cache, stats0))"
              "snd (activate_burst_mode ''7'' 10 (init_cache, stats0))" "''8''" 40]
  by (auto simp: activate_burst_mode_def init_cache_def)

section \<open>The extraction queue\<close>

lemma filter_same_id_removed:
  "filter (\<lambda>item. t_id item = account_id) (filter (\<lambda>item. t_id item \<noteq> account_id) items) = []"
  by (induction items) auto

lemma filter_other_id:
  "b \<noteq> account_id \<Longrightarrow>
   filter (\<lambda>item. t_id item = b) (filter (\<lambda>item. t_id item \<noteq> account_id) items) =
   filter (\<lambda>item. t_id item = b) items"
  by (induction items) auto

lemma distinct_map_filter_ids:
  "distinct (map t_id items) \<Longrightarrow> distinct (map t_id (filter P items))"
  by (induction items) auto

text \<open>
  C7. After \<open>add_to_taken_queue\<close> the queue holds exactly one entry with the identifier,
  the new one, whatever the queue held before; the entries of every other identifier are
  the same, in the same order; and a queue with at most one entry per identifier stays so.
\<close>

theorem add_to_taken_queue_spec:
  "filter (\<lambda>item. t_id item = account_id)
      (add_to_taken_queue account_id email status taken_value now items) =
     [\<lparr>t_id = account_id, t_email = email, t_status = status, t_taken = taken_value,
       t_added_at = now\<rparr>] \<and>
   filter (\<lambda>item. t_id item \<noteq> account_id)
      (add_to_taken_queue account_id email status taken_value now items) =
     filter (\<lambda>item. t_id item \<noteq> account_id) items \<and>
   (\<forall>b. b \<noteq> account_id \<longrightarrow>
      filter (\<lambda>item. t_id item = b)
        (add_to_taken_queue account_id email status taken_value now items) =
      filter (\<lambda>item. t_id item = b) items) \<and>
   (distinct (map t_id items) \<longrightarrow>
      distinct (map t_id (add_to_taken_queue account_id email status taken_value now items)))"
proof (intro conjI allI impI)
  show "filter (\<lambda>item. t_id item = account_id)
      (add_to_taken_queue account_id email status taken_value now items) =
     [\<lparr>t_id = account_id, t_email = email, t_status = status, t_taken = taken_value,
       t_added_at = now\<rparr>]"
    unfolding add_to_taken_queue_def filter_append filter_same_id_removed by simp
next
  show "filter (\<lambda>item. t_id item \<noteq> account_id)
      (add_to_taken_queue account_id email status taken_value now items) =
     filter (\<lambda>item. t_id item \<noteq> account_id) items"
    unfolding add_to_taken_queue_def by simp
next
  fix b assume "b \<noteq> account_id"
  then show "filter (\<lambda>item. t_id item = b)
        (add_to_taken_queue account_id email status taken_value now items) =
      filter (\<lambda>item. t_id item = b) items"
    by (simp add: add_to_taken_queue_def filter_other_id del: filter_filter)
next
  assume "distinct (map t_id items)"
  then have "distinct (map t_id (filter (\<lambda>item. t_id item \<noteq> account_id) items))"
    by (rule distinct_map_filter_ids)
  moreover have "account_id \<notin> t_id ` set (filter (\<lambda>item. t_id item \<noteq> account_id) items)"
    by auto
  ultimately show
    "distinct (map t_id (add_to_taken_queue account_id email status taken_value now items))"
    unfolding add_to_taken_queue_def by simp
qed

theorem add_to_taken_queue_spec_witness:
  "queue2 =
     [\<lparr>t_id = ''9'', t_email = ''b@x.com'', t_status = ''DISABLED'', t_taken = ''40'',
       t_added_at = 20\<rparr>,
      \<lparr>t_id = ''7'', t_email = ''a@x.com'', t_status = ''AMOUNT_TAKEN'', t_taken = ''2000'',
       t_added_at = 30\<rparr>] \<and>
   distinct (map t_id queue1) \<and>
   distinct (map t_id queue2) \<and>
   filter (\<lambda>item. t_id item = ''9'') queue2 = filter (\<lambda>item. t_id item = ''9'') queue1"
proof -
  have q1: "queue1 =
     [\<lparr>t_id = ''7'', t_email = ''a@x.com'', t_status = ''AMOUNT_TAKEN'', t_taken = ''1500'',
       t_added_at = 10\<rparr>,
      \<lparr>t_id = ''9'', t_email = ''b@x.com'', t_status = ''DISABLED'', t_taken = ''40'',
       t_added_at = 20\<rparr>]"
    by (simp add: queue1_def add_to_taken_queue_def)
  have d: "distinct (map t_id queue1)"
    by (simp add: q1)
  have n: "''9'' \<noteq> ''7''"
    by simp
  note inst = add_to_taken_queue_spec
                [of "''7''" "''a@x.com''" "''AMOUNT_TAKEN''" "''2000''" 30 queue1]
  have 1: "distinct (map t_id queue2)"
    unfolding queue2_def
    by (rule inst [THEN conjunct2, THEN conjunct2, THEN conjunct2, THEN mp, OF d])
  have 2: "filter (\<lambda>item. t_id item = ''9'') queue2 = filter (\<lambda>item. t_id item = ''9'') queue1"
    unfolding queue2_def
    by (rule inst [THEN conjunct2, THEN conjunct2, THEN conjunct1, THEN spec, THEN mp, OF n])
  have 3: "queue2 =
     [\<lparr>t_id = ''9'', t_email = ''b@x.com'', t_status = ''DISABLED'', t_taken = ''40'',
       t_added_at = 20\<rparr>,
      \<lparr>t_id = ''7'', t_email = ''a@x.com'', t_status = ''AMOUNT_TAKEN'', t_taken = ''2000'',
       t_added_at = 30\<rparr>]"
    unfolding queue2_def q1 by (simp add: add_to_taken_queue_def)
  from 3 d 1 2 show ?thesis by (intro conjI)
qed

section \<open>Discovery\<close>

lemma map_of_dict_set: "map_of (dict_set d k v) = (map_of d)(k \<mapsto> v)"
  by (induction d) auto

lemma auto_discovery_skip:
  "\<not> discoverable up g ids x \<Longrightarrow>
   auto_discovery up clk g c (x # xs) (ids, a, w) = auto_discovery up clk g c xs (ids, a, w)"
  by (auto simp: Let_def)

lemma auto_discovery_add:
  "discoverable up g ids x \<Longrightarrow>
   auto_discovery up clk g c (x # xs) (ids, a, w) =
     auto_discovery up clk g c xs (insert (acc_id x) ids, True, discovered_world clk c x w)"
  by (simp add: Let_def)

lemma discovered_world_file:
  "map_of (monitored_file (discovered_world clk c x w)) =
     (map_of (monitored_file w))
       (acc_key x \<mapsto>
          \<lparr>m_email = dget x ''Sender'' '''', m_account_id = acc_id x,
           m_last_known_status = ''AVAILABLE'', m_chat_id = chat_id_or_0 c,
           m_source = ''manual'', m_added_at = clk (ticks w),
           m_last_check = clk (ticks w + 1)\<rparr>)"
  by (simp add: add_monitored_account_def map_of_dict_set)

text \<open>
  An entry of the file survives the rest of the loop when the loop adds no later account
  under its key.
\<close>

lemma auto_discovery_keeps:
  "auto_discovery up clk g c xs (ids, a, w) = (ids', a', w') \<Longrightarrow>
   map_of (monitored_file w) k = Some e \<Longrightarrow>
   \<forall>r\<in>set xs. acc_key r = k \<longrightarrow> \<not> discoverable up g ids r \<Longrightarrow>
   map_of (monitored_file w') k = Some e"
proof (induction xs arbitrary: ids a w)
  case Nil
  then show ?case by simp
next
  case (Cons x xs)
  show ?case
  proof (cases "discoverable up g ids x")
    case True
    have run: "auto_discovery up clk g c xs
        (insert (acc_id x) ids, True, discovered_world clk c x w) = (ids', a', w')"
      using Cons.prems(1)
      unfolding auto_discovery_add [where up = up and g = g and ids = ids and x = x, OF True] .
    from True Cons.prems(3) have "acc_key x \<noteq> k" by auto
    with Cons.prems(2) have "map_of (monitored_file (discovered_world clk c x w)) k = Some e"
      by (simp only: discovered_world_file) simp
    moreover from Cons.prems(3)
    have "\<forall>r\<in>set xs. acc_key r = k \<longrightarrow> \<not> discoverable up g (insert (acc_id x) ids) r"
      by auto
    ultimately show ?thesis by (rule Cons.IH [OF run])
  next
    case False
    have run: "auto_discovery up clk g c xs (ids, a, w) = (ids', a', w')"
      using Cons.prems(1)
      unfolding auto_discovery_skip [where up = up and g = g and ids = ids and x = x, OF False] .
    from Cons.prems(3)
    have "\<forall>r\<in>set xs. acc_key r = k \<longrightarrow> \<not> discoverable up g ids r" by auto
    with Cons.prems(2) show ?thesis by (rule Cons.IH [OF run])
  qed
qed

lemma auto_discovery_complete:
  "auto_discovery up clk g c xs (ids, a, w) = (ids', a', w') \<Longrightarrow>
   \<forall>r1\<in>set xs. \<forall>r2\<in>set xs.
      discoverable up g ids r1 \<and> discoverable up g ids r2 \<and> acc_key r1 = acc_key r2
        \<longrightarrow> acc_id r1 = acc_id r2 \<Longrightarrow>
   r \<in> set xs \<Longrightarrow> discoverable up g ids r \<Longrightarrow>
   \<exists>k e. map_of (monitored_file w') k = Some e \<and> m_account_id e = acc_id r \<and>
         m_source e = ''manual'' \<and> m_last_known_status e = ''AVAILABLE'' \<and>
         m_chat_id e = chat_id_or_0 c"
proof (induction xs arbitrary: ids a w)
  case Nil
  then show ?case by simp
next
  case (Cons x xs)
  show ?case
  proof (cases "discoverable up g ids x")
    case True
    have run: "auto_discovery up clk g c xs
        (insert (acc_id x) ids, True, discovered_world clk c x w) = (ids', a', w')"
      using Cons.prems(1)
      unfolding auto_discovery_add [where up = up and g = g and ids = ids and x = x, OF True] .
    from Cons.prems(2)
    have keys: "\<forall>r1\<in>set xs. \<forall>r2\<in>set xs.
      discoverable up g (insert (acc_id x) ids) r1 \<and>
      discoverable up g (insert (acc_id x) ids) r2 \<and> acc_key r1 = acc_key r2
        \<longrightarrow> acc_id r1 = acc_id r2"
      by auto
    show ?thesis
    proof (cases "acc_id r = acc_id x")
      case same: True
      let ?e = "\<lparr>m_email = dget x ''Sender'' '''', m_account_id = acc_id x,
           m_last_known_status = ''AVAILABLE'', m_chat_id = chat_id_or_0 c,
           m_source = ''manual'', m_added_at = clk (ticks w),
           m_last_check = clk (ticks w + 1)\<rparr>"
      have "map_of (monitored_file (discovered_world clk c x w)) (acc_key x) = Some ?e"
        by (simp only: discovered_world_file) simp
      moreover have "\<forall>r'\<in>set xs. acc_key r' = acc_key x \<longrightarrow>
                        \<not> discoverable up g (insert (acc_id x) ids) r'"
      proof (intro ballI impI notI)
        fix r' assume r': "r' \<in> set xs" "acc_key r' = acc_key x"
          and d: "discoverable up g (insert (acc_id x) ids) r'"
        from d have "discoverable up g ids r'" by simp
        with Cons.prems(2) True r' have "acc_id r' = acc_id x" by auto
        with d show False by simp
      qed
      ultimately have "map_of (monitored_file w') (acc_key x) = Some ?e"
        by (rule auto_discovery_keeps [OF run])
      with same show ?thesis by (intro exI [of _ "acc_key x"] exI [of _ ?e]) simp
    next
      case other: False
      with Cons.prems(3) have "r \<in> set xs" by auto
      moreover from other Cons.prems(4)
      have "discoverable up g (insert (acc_id x) ids) r" by simp
      ultimately show ?thesis by (rule Cons.IH [OF run keys])
    qed
  next
    case False
    have run: "auto_discovery up clk g c xs (ids, a, w) = (ids', a', w')"
      using Cons.prems(1)
      unfolding auto_discovery_skip [where up = up and g = g and ids = ids and x = x, OF False] .
    from Cons.prems(2)
    have keys: "\<forall>r1\<in>set xs. \<forall>r2\<in>set xs.
      discoverable up g ids r1 \<and> discoverable up g ids r2 \<and> acc_key r1 = acc_key r2
        \<longrightarrow> acc_id r1 = acc_id r2"
      by auto
    from False Cons.prems(4) have "r \<noteq> x" by auto
    with Cons.prems(3) have "r \<in> set xs" by simp
    then show ?thesis using Cons.prems(4) by (rule Cons.IH [OF run keys])
  qed
qed

lemma auto_discovery_sound:
  "auto_discovery up clk g c xs (ids, a, w) = (ids', a', w') \<Longrightarrow>
   map_of (monitored_file w') k = Some e \<Longrightarrow>
   map_of (monitored_file w) k = Some e \<or>
   (\<exists>r\<in>set xs. discoverable up g ids r \<and> k = acc_key r \<and> m_account_id e = acc_id r \<and>
       m_email e = dget r ''Sender'' '''' \<and> m_source e = ''manual'')"
proof (induction xs arbitrary: ids a w)
  case Nil
  then show ?case by simp
next
  case (Cons x xs)
  show ?case
  proof (cases "discoverable up g ids x")
    case True
    have run: "auto_discovery up clk g c xs
        (insert (acc_id x) ids, True, discovered_world clk c x w) = (ids', a', w')"
      using Cons.prems(1)
      unfolding auto_discovery_add [where up = up and g = g and ids = ids and x = x, OF True] .
    from Cons.IH [OF run Cons.prems(2)]
    consider (old) "map_of (monitored_file (discovered_world clk c x w)) k = Some e"
      | (new) r where "r \<in> set xs" "discoverable up g (insert (acc_id x) ids) r"
          "k = acc_key r" "m_account_id e = acc_id r" "m_email e = dget r ''Sender'' ''''"
          "m_source e = ''manual''"
      by blast
    then show ?thesis
    proof cases
      case old
      show ?thesis
      proof (cases "k = acc_key x")
        case at_x: True
        with old have "e = \<lparr>m_email = dget x ''Sender'' '''', m_account_id = acc_id x,
           m_last_known_status = ''AVAILABLE'', m_chat_id = chat_id_or_0 c,
           m_source = ''manual'', m_added_at = clk (ticks w),
           m_last_check = clk (ticks w + 1)\<rparr>"
          by (simp only: discovered_world_file) simp
        with at_x True show ?thesis by (intro disjI2 bexI [of _ x]) simp_all
      next
        case False
        with old have "map_of (monitored_file w) k = Some e"
          by (simp only: discovered_world_file) simp
        then show ?thesis ..
      qed
    next
      case new
      then show ?thesis by (intro disjI2 bexI [of _ r]) simp_all
    qed
  next
    case False
    have run: "auto_discovery up clk g c xs (ids, a, w) = (ids', a', w')"
      using Cons.prems(1)
      unfolding auto_discovery_skip [where up = up and g = g and ids = ids and x = x, OF False] .
    from Cons.IH [OF run Cons.prems(2)] show ?thesis by auto
  qed
qed

text \<open>
  C5, as the code has it, for any \<^verbatim>\<open>str.upper\<close>. The discovery loop starts from the
  identifiers of the monitored accounts loaded at the start of the cycle; an account of the
  snapshot is eligible when its identifier is not empty and not among them, its status in
  upper case is \<^verbatim>\<open>AVAILABLE\<close> and its group is the target group. Every entry of the file
  after the loop was there before or was made from an eligible account, with its key,
  identifier and address and the source \<^verbatim>\<open>manual\<close> (the origin of a discovered account): no
  entry comes from an account of another group. And when no two eligible accounts with
  different identifiers share the key \<^verbatim>\<open>id_email\<close>, every eligible account has after the
  loop an entry with its identifier, status \<^verbatim>\<open>AVAILABLE\<close>, the default chat id and the
  source \<^verbatim>\<open>manual\<close>.
\<close>

theorem auto_discovery_spec:
  assumes run:
    "auto_discovery up clk g c snapshot (existing_ids_of accounts, False, w) = (ids', added', w')"
  shows "(\<forall>k e. map_of (monitored_file w') k = Some e \<longrightarrow>
            map_of (monitored_file w) k = Some e \<or>
            (\<exists>r\<in>set snapshot. discoverable up g (existing_ids_of accounts) r \<and> k = acc_key r \<and>
                m_account_id e = acc_id r \<and> m_email e = dget r ''Sender'' '''' \<and>
                m_source e = ''manual'')) \<and>
         ((\<forall>r1\<in>set snapshot. \<forall>r2\<in>set snapshot.
              discoverable up g (existing_ids_of accounts) r1 \<and>
              discoverable up g (existing_ids_of accounts) r2 \<and> acc_key r1 = acc_key r2
                \<longrightarrow> acc_id r1 = acc_id r2) \<longrightarrow>
          (\<forall>r\<in>set snapshot. discoverable up g (existing_ids_of accounts) r \<longrightarrow>
             (\<exists>k e. map_of (monitored_file w') k = Some e \<and> m_account_id e = acc_id r \<and>
                    m_source e = ''manual'' \<and> m_last_known_status e = ''AVAILABLE'' \<and>
                    m_chat_id e = chat_id_or_0 c)))"
proof (intro conjI ballI allI impI)
  fix k e
  assume "map_of (monitored_file w') k = Some e"
  with run show "map_of (monitored_file w) k = Some e \<or>
            (\<exists>r\<in>set snapshot. discoverable up g (existing_ids_of accounts) r \<and> k = acc_key r \<and>
                m_account_id e = acc_id r \<and> m_email e = dget r ''Sender'' '''' \<and>
                m_source e = ''manual'')"
    by (rule auto_discovery_sound)
next
  fix r
  assume keys: "\<forall>r1\<in>set snapshot. \<forall>r2\<in>set snapshot.
              discoverable up g (existing_ids_of accounts) r1 \<and>
              discoverable up g (existing_ids_of accounts) r2 \<and> acc_key r1 = acc_key r2
                \<longrightarrow> acc_id r1 = acc_id r2"
    and "r \<in> set snapshot" and "discoverable up g (existing_ids_of accounts) r"
  with run show "\<exists>k e. map_of (monitored_file w') k = Some e \<and> m_account_id e = acc_id r \<and>
                   m_source e = ''manual'' \<and> m_last_known_status e = ''AVAILABLE'' \<and>
                   m_chat_id e = chat_id_or_0 c"
    by (rule auto_discovery_complete)
qed

lemma upper_AVAILABLE: "ascii_upper ''AVAILABLE'' = ''AVAILABLE''"
  by (simp add: ascii_upper_def ascii_upper_char_def)

lemma sample_ids:
  "acc_id acc9 = ''9''" "acc_id acc10 = ''10''" "acc_id acc_noid = ''''"
  "acc_id acc_u1 = ''1_2''" "acc_id acc_u2 = ''1''"
  by (simp_all add: acc9_def acc10_def acc_noid_def acc_u1_def acc_u2_def dget_def)

lemma sample_senders:
  "dget acc9 ''Sender'' '''' = ''i@x.com''" "dget acc10 ''Sender'' '''' = ''j@x.com''"
  "dget acc_noid ''Sender'' '''' = ''n@x.com''"
  "dget acc_u1 ''Sender'' '''' = ''x''" "dget acc_u2 ''Sender'' '''' = ''2_x''"
  by (simp_all add: acc9_def acc10_def acc_noid_def acc_u1_def acc_u2_def dget_def)

lemma sample_statuses:
  "dget acc9 ''Status'' '''' = ''AVAILABLE''" "dget acc10 ''Status'' '''' = ''AVAILABLE''"
  "dget acc_noid ''Status'' '''' = ''AVAILABLE''"
  "dget acc_u1 ''Status'' '''' = ''AVAILABLE''" "dget acc_u2 ''Status'' '''' = ''AVAILABLE''"
  by (simp_all add: acc9_def acc10_def acc_noid_def acc_u1_def acc_u2_def dget_def)

lemma sample_groups:
  "dget acc9 ''Group'' '''' = ''OTHER''" "dget acc10 ''Group'' '''' = ''G''"
  "dget acc_noid ''Group'' '''' = ''G''"
  "dget acc_u1 ''Group'' '''' = ''G''" "dget acc_u2 ''Group'' '''' = ''G''"
  by (simp_all add: acc9_def acc10_def acc_noid_def acc_u1_def acc_u2_def dget_def)

lemma discovery_sample_run:
  "auto_discovery ascii_upper clk0 ''G'' (Some 555) [acc9, acc10]
     (existing_ids_of [], False, world0) =
     ({''10''}, True,
      world0\<lparr>monitored_file :=
               [(''10_j@x.com'',
                 \<lparr>m_email = ''j@x.com'', m_account_id = ''10'', m_last_known_status = ''AVAILABLE'',
                  m_chat_id = 555, m_source = ''manual'', m_added_at = 0, m_last_check = 1\<rparr>)],
             ticks := 2,
             monitor_log := [AutoMonitored ''j@x.com'']\<rparr>)"
  by (simp add: sample_ids sample_senders sample_statuses sample_groups upper_AVAILABLE
      existing_ids_of_def Let_def world0_def add_monitored_account_def monitored_key_def clk0_def)

text \<open>
  The scenario of the specification: with target group \<^verbatim>\<open>G\<close>, the account 10 of group
  \<^verbatim>\<open>G\<close> is monitored after the loop, and no entry of the file carries the identifier of
  the account 9 of another group.
\<close>

theorem auto_discovery_spec_witness:
  "(\<exists>k e. map_of (monitored_file (snd (snd (auto_discovery ascii_upper clk0 ''G'' (Some 555)
                [acc9, acc10] (existing_ids_of [], False, world0))))) k = Some e \<and>
          m_account_id e = ''10'' \<and> m_source e = ''manual'' \<and>
          m_last_known_status e = ''AVAILABLE'' \<and> m_chat_id e = 555) \<and>
   (\<nexists>k e. map_of (monitored_file (snd (snd (auto_discovery ascii_upper clk0 ''G'' (Some 555)
                [acc9, acc10] (existing_ids_of [], False, world0))))) k = Some e \<and>
          m_account_id e = ''9'') \<and>
   map (\<lambda>(k, e). m_account_id e)
     (monitored_file (snd (snd (auto_discovery ascii_upper clk0 ''G'' (Some 555) [acc9, acc10]
                (existing_ids_of [], False, world0))))) = [''10'']"
proof -
  let ?R = "auto_discovery ascii_upper clk0 ''G'' (Some 555) [acc9, acc10]
              (existing_ids_of [], False, world0)"
  have run: "?R = (fst ?R, fst (snd ?R), snd (snd ?R))"
    by simp
  note inst = auto_discovery_spec [OF run]
  have keys: "\<forall>r1\<in>set [acc9, acc10]. \<forall>r2\<in>set [acc9, acc10].
                 discoverable ascii_upper ''G'' (existing_ids_of []) r1 \<and>
                 discoverable ascii_upper ''G'' (existing_ids_of []) r2 \<and> acc_key r1 = acc_key r2
                   \<longrightarrow> acc_id r1 = acc_id r2"
    by (simp add: sample_ids sample_senders monitored_key_def)
  have r: "acc10 \<in> set [acc9, acc10]"
    by simp
  have d: "discoverable ascii_upper ''G'' (existing_ids_of []) acc10"
    by (simp add: sample_ids sample_statuses sample_groups upper_AVAILABLE existing_ids_of_def)
  have "\<exists>k e. map_of (monitored_file (snd (snd ?R))) k = Some e \<and> m_account_id e = acc_id acc10 \<and>
                   m_source e = ''manual'' \<and> m_last_known_status e = ''AVAILABLE'' \<and>
                   m_chat_id e = chat_id_or_0 (Some 555)"
    by (rule inst [THEN conjunct2, THEN mp, OF keys, THEN bspec, OF r, THEN mp, OF d])
  then have 1: "\<exists>k e. map_of (monitored_file (snd (snd ?R))) k = Some e \<and>
          m_account_id e = ''10'' \<and> m_source e = ''manual'' \<and>
          m_last_known_status e = ''AVAILABLE'' \<and> m_chat_id e = 555"
    by (simp add: sample_ids)
  have 2: "\<nexists>k e. map_of (monitored_file (snd (snd ?R))) k = Some e \<and> m_account_id e = ''9''"
  proof
    assume "\<exists>k e. map_of (monitored_file (snd (snd ?R))) k = Some e \<and> m_account_id e = ''9''"
    then obtain k e where e: "map_of (monitored_file (snd (snd ?R))) k = Some e"
      and nine: "m_account_id e = ''9''"
      by blast
    from inst [THEN conjunct1, THEN spec, THEN spec, THEN mp, OF e]
    have "\<exists>r\<in>set [acc9, acc10]. discoverable ascii_upper ''G'' (existing_ids_of []) r \<and>
              m_account_id e = acc_id r"
      by (auto simp: world0_def)
    with nine show False
      by (auto simp: sample_ids sample_groups)
  qed
  have 3: "map (\<lambda>(k, e). m_account_id e) (monitored_file (snd (snd ?R))) = [''10'']"
    unfolding discovery_sample_run by simp
  from 1 2 3 show ?thesis by (intro conjI)
qed

text \<open>
  C5, as the specification states it, fails on an account without identifier: it is not
  monitored, its status is \<^verbatim>\<open>AVAILABLE\<close> and its group is the target group, and the loop
  leaves the file empty. It fails as well on two eligible accounts with the identifiers
  \<^verbatim>\<open>1_2\<close> and \<^verbatim>\<open>1\<close> and the addresses \<^verbatim>\<open>x\<close> and \<^verbatim>\<open>2_x\<close>: both are filed under the key
  \<^verbatim>\<open>1_2_x\<close>, and after the loop the only entry is the one of the second.
\<close>

theorem auto_discovery_counterexample:
  "acc_id acc_noid \<notin> existing_ids_of (monitored_file world0) \<and>
   dget acc_noid ''Status'' '''' = ''AVAILABLE'' \<and>
   dget acc_noid ''Group'' '''' = ''G'' \<and>
   monitored_file (snd (snd (auto_discovery ascii_upper clk0 ''G'' (Some 555) [acc_noid]
      (existing_ids_of (monitored_file world0), False, world0)))) = [] \<and>
   acc_id acc_u1 = ''1_2'' \<and>
   acc_id acc_u1 \<notin> existing_ids_of (monitored_file world0) \<and>
   dget acc_u1 ''Status'' '''' = ''AVAILABLE'' \<and>
   dget acc_u1 ''Group'' '''' = ''G'' \<and>
   map (\<lambda>(k, e). (k, m_account_id e))
     (monitored_file (snd (snd (auto_discovery ascii_upper clk0 ''G'' (Some 555) [acc_u1, acc_u2]
        (existing_ids_of (monitored_file world0), False, world0))))) = [(''1_2_x'', ''1'')]"
  by (simp add: sample_ids sample_senders sample_statuses sample_groups upper_AVAILABLE
      existing_ids_of_def world0_def Let_def add_monitored_account_def monitored_key_def)
section \<open>Extraction on a status change\<close>

lemma enqueue_taken_fields:
  "monitored_file (enqueue_taken py_float clk aid email cur info w) = monitored_file w \<and>
   sent (enqueue_taken py_float clk aid email cur info w) = sent w \<and>
   taken_file (enqueue_taken py_float clk aid email cur info w) =
     (case py_float (dget info ''Taken'' ''0'') of
        None \<Rightarrow> taken_file w
      | Some x \<Rightarrow>
          if float_pos x
          then add_to_taken_queue aid email (replace_spaces cur) (dget info ''Taken'' ''0'')
                 (clk (ticks w)) (taken_file w)
          else taken_file w) \<and>
   monitor_log (enqueue_taken py_float clk aid email cur info w) =
     monitor_log w @
       (case py_float (dget info ''Taken'' ''0'') of
          None \<Rightarrow> [InvalidTaken email (dget info ''Taken'' ''0'')]
        | Some x \<Rightarrow>
            if float_pos x then [ExtractionDetected cur email (dget info ''Taken'' ''0'')] else []) \<and>
   ticks (enqueue_taken py_float clk aid email cur info w) =
     (case py_float (dget info ''Taken'' ''0'') of
        None \<Rightarrow> ticks w
      | Some x \<Rightarrow> if float_pos x then ticks w + 1 else ticks w)"
  by (simp add: enqueue_taken_def Let_def split: option.splits)

text \<open>
  What \<open>update_monitored_account_status\<close> writes: the first entry of the file with the
  identifier gets the status and the check time, and every other entry is kept; a file
  without the identifier is kept as it is.
\<close>

lemma update_status_first:
  "\<forall>e\<in>set pre. m_account_id (snd e) \<noteq> aid \<Longrightarrow> m_account_id d = aid \<Longrightarrow>
   update_monitored_account_status aid st t (pre @ (k, d) # post) =
     pre @ (k, d\<lparr>m_last_known_status := st, m_last_check := t\<rparr>) # post"
  by (induction pre) auto

lemma update_status_absent:
  "\<forall>e\<in>set db. m_account_id (snd e) \<noteq> aid \<Longrightarrow>
   update_monitored_account_status aid st t db = db"
  by (induction db) auto

lemma update_status_own:
  assumes "(key, d) \<in> set db" and "distinct (map (\<lambda>e. m_account_id (snd e)) db)"
  shows "(key, d\<lparr>m_last_known_status := st, m_last_check := t\<rparr>)
           \<in> set (update_monitored_account_status (m_account_id d) st t db)"
proof -
  from assms(1) obtain pre post where db: "db = pre @ (key, d) # post"
    by (auto simp: in_set_conv_decomp)
  with assms(2) have "\<forall>e\<in>set pre. m_account_id (snd e) \<noteq> m_account_id d"
    by force
  then show ?thesis
    unfolding db by (simp add: update_status_first)
qed

text \<open>
  C6, as the code has it, for any \<^verbatim>\<open>str.upper\<close> and \<^verbatim>\<open>float\<close>. A monitored account
  \<open>data\<close> whose snapshot status \<open>cur\<close> differs from the last known one and is
  \<^verbatim>\<open>AMOUNT TAKEN\<close> or \<^verbatim>\<open>DISABLED\<close>: the change is counted; the queue gets the item with the
  \<^verbatim>\<open>Taken\<close> string exactly when \<^verbatim>\<open>float\<close> parses it to a value above zero; the log gets
  the change and then the warning when the string does not parse, the detection when the
  item is queued, and nothing when the value parses and is not above zero. In every case
  the first entry of the file with the identifier gets the new status and the check time,
  the rest of the file is kept, and a file without the identifier is kept as it is; so
  the entry of \<open>data\<close> itself gets the new status when the identifiers of the file are
  distinct. In every case the notification is handed to the bot unless the chat id is 0.
\<close>

theorem check_account_extraction:
  assumes ident: "m_account_id data \<noteq> ''''"
    and found: "by_id (m_account_id data) = Some info" "info \<noteq> []"
    and cur: "cur = up (dget info ''Status'' STATUS_UNDEFINED)"
    and changed: "cur \<noteq> up (m_last_known_status data)"
    and extraction: "cur = ''AMOUNT TAKEN'' \<or> cur = ''DISABLED''"
    and run: "check_account up py_float clk by_id data (n, w) = (n', w')"
    and t: "t = clk (case py_float (dget info ''Taken'' ''0'') of
                      None \<Rightarrow> ticks w
                    | Some x \<Rightarrow> if float_pos x then ticks w + 1 else ticks w)"
  shows "n' = n + 1 \<and>
    taken_file w' =
      (case py_float (dget info ''Taken'' ''0'') of
         None \<Rightarrow> taken_file w
       | Some x \<Rightarrow>
           if float_pos x
           then add_to_taken_queue (m_account_id data) (m_email data) (replace_spaces cur)
                  (dget info ''Taken'' ''0'') (clk (ticks w)) (taken_file w)
           else taken_file w) \<and>
    monitor_log w' =
      monitor_log w @
        [StatusChanged (m_email data) (up (m_last_known_status data)) cur] @
        (case py_float (dget info ''Taken'' ''0'') of
           None \<Rightarrow> [InvalidTaken (m_email data) (dget info ''Taken'' ''0'')]
         | Some x \<Rightarrow>
             if float_pos x
             then [ExtractionDetected cur (m_email data) (dget info ''Taken'' ''0'')]
             else []) \<and>
    (\<forall>pre k d post.
       monitored_file w = pre @ (k, d) # post \<and>
       (\<forall>e\<in>set pre. m_account_id (snd e) \<noteq> m_account_id data) \<and>
       m_account_id d = m_account_id data \<longrightarrow>
       monitored_file w' =
         pre @ (k, d\<lparr>m_last_known_status := cur, m_last_check := t\<rparr>) # post) \<and>
    ((\<forall>e\<in>set (monitored_file w). m_account_id (snd e) \<noteq> m_account_id data) \<longrightarrow>
       monitored_file w' = monitored_file w) \<and>
    (\<forall>key. (key, data) \<in> set (monitored_file w) \<and>
           distinct (map (\<lambda>e. m_account_id (snd e)) (monitored_file w)) \<longrightarrow>
       (key, data\<lparr>m_last_known_status := cur, m_last_check := t\<rparr>) \<in> set (monitored_file w')) \<and>
    sent w' =
      sent w @
        (if m_chat_id data = 0 then []
         else [\<lparr>n_email = m_email data, n_account_id = m_account_id data,
                 n_old_status = up (m_last_known_status data), n_new_status = cur,
                 n_chat_id = m_chat_id data, n_account_data = info,
                 n_source = m_source data\<rparr>])"
proof -
  from found have tr: "truthy_dict (by_id (m_account_id data))"
    by (cases info) simp_all
  let ?w1 = "w\<lparr>monitor_log :=
                 monitor_log w @
                   [StatusChanged (m_email data) (up (m_last_known_status data)) cur]\<rparr>"
  let ?w2 = "enqueue_taken py_float clk (m_account_id data) (m_email data) cur info ?w1"
  let ?w4 = "?w2\<lparr>monitored_file :=
                   update_monitored_account_status (m_account_id data) cur
                     (clk (ticks ?w2)) (monitored_file ?w2),
                 ticks := ticks ?w2 + 1\<rparr>"
  have no_attention:
    "cur \<notin> {''BACKUP CODE WRONG'', ''WRONG DETAILS''}" "cur \<noteq> ''TRANSFER LIST IS FULL''"
    using extraction by auto
  have res: "check_account up py_float clk by_id data (n, w) =
     (n + 1, send_status_notification (m_email data) (m_account_id data)
                (up (m_last_known_status data)) cur (m_chat_id data) info
                (m_source data) ?w4)"
    using ident tr found(1) changed extraction no_attention
    unfolding check_account_def cur [symmetric]
    by (simp add: Let_def cur [symmetric])
  with run have n': "n' = n + 1"
    and w': "w' = send_status_notification (m_email data) (m_account_id data)
                (up (m_last_known_status data)) cur (m_chat_id data) info
                (m_source data) ?w4"
    by simp_all
  note f = enqueue_taken_fields [of py_float clk "m_account_id data" "m_email data" cur info ?w1]
  have tk: "clk (ticks ?w2) = t"
    unfolding t using f by (simp split: option.splits)
  have f1: "taken_file w' = taken_file ?w2"
    unfolding w' by (simp add: send_status_notification_def)
  have f2: "monitor_log w' = monitor_log ?w2"
    unfolding w' by (simp add: send_status_notification_def)
  have f3: "monitored_file w' =
      update_monitored_account_status (m_account_id data) cur t (monitored_file w)"
    unfolding w' using f tk by (simp add: send_status_notification_def)
  have f4: "sent w' = sent w @
        (if m_chat_id data = 0 then []
         else [\<lparr>n_email = m_email data, n_account_id = m_account_id data,
                 n_old_status = up (m_last_known_status data), n_new_status = cur,
                 n_chat_id = m_chat_id data, n_account_data = info,
                 n_source = m_source data\<rparr>])"
    unfolding w' using f by (simp add: send_status_notification_def)
  have g1: "taken_file w' =
      (case py_float (dget info ''Taken'' ''0'') of
         None \<Rightarrow> taken_file w
       | Some x \<Rightarrow>
           if float_pos x
           then add_to_taken_queue (m_account_id data) (m_email data) (replace_spaces cur)
                  (dget info ''Taken'' ''0'') (clk (ticks w)) (taken_file w)
           else taken_file w)"
    unfolding f1 using f by (simp split: option.splits)
  have g2: "monitor_log w' =
      monitor_log w @
        [StatusChanged (m_email data) (up (m_last_known_status data)) cur] @
        (case py_float (dget info ''Taken'' ''0'') of
           None \<Rightarrow> [InvalidTaken (m_email data) (dget info ''Taken'' ''0'')]
         | Some x \<Rightarrow>
             if float_pos x
             then [ExtractionDetected cur (m_email data) (dget info ''Taken'' ''0'')]
             else [])"
    unfolding f2 using f by (simp split: option.splits)
  have g3: "\<forall>pre k d post.
       monitored_file w = pre @ (k, d) # post \<and>
       (\<forall>e\<in>set pre. m_account_id (snd e) \<noteq> m_account_id data) \<and>
       m_account_id d = m_account_id data \<longrightarrow>
       monitored_file w' =
         pre @ (k, d\<lparr>m_last_known_status := cur, m_last_check := t\<rparr>) # post"
    unfolding f3 by (auto simp: update_status_first)
  have g4: "(\<forall>e\<in>set (monitored_file w). m_account_id (snd e) \<noteq> m_account_id data) \<longrightarrow>
       monitored_file w' = monitored_file w"
    unfolding f3 by (auto simp: update_status_absent)
  have g5: "\<forall>key. (key, data) \<in> set (monitored_file w) \<and>
           distinct (map (\<lambda>e. m_account_id (snd e)) (monitored_file w)) \<longrightarrow>
       (key, data\<lparr>m_last_known_status := cur, m_last_check := t\<rparr>) \<in> set (monitored_file w')"
    unfolding f3 by (auto intro: update_status_own)
  from n' g1 g2 g3 g4 g5 f4 show ?thesis by (intro conjI)
qed

lemma upper_AMOUNT_TAKEN: "ascii_upper ''AMOUNT TAKEN'' = ''AMOUNT TAKEN''"
  by (simp add: ascii_upper_def ascii_upper_char_def)

lemma taken7_fields:
  "accounts_by_id [taken7 v] ''7'' = Some (taken7 v)"
  "dget (taken7 v) ''Status'' STATUS_UNDEFINED = ''AMOUNT TAKEN''"
  "dget (taken7 v) ''Taken'' ''0'' = v"
  "taken7 v \<noteq> []"
  by (simp_all add: accounts_by_id_def taken7_def dget_def)

lemma taken7_truthy: "truthy_dict (Some (taken7 v))"
  by (simp add: taken7_def)

lemma tracked7_fields:
  "m_account_id tracked7 = ''7''" "m_email tracked7 = ''a@x.com''"
  "m_last_known_status tracked7 = ''AVAILABLE''" "m_chat_id tracked7 = 555"
  "m_source tracked7 = ''bot''"
  by (simp_all add: tracked7_def)

text \<open>
  The scenario of the specification: the account 7 turns \<^verbatim>\<open>AMOUNT TAKEN\<close> with
  \<^verbatim>\<open>Taken = "1500"\<close>; one item with that value is queued, the entry of the file gets the new
  status and one notification is sent.
\<close>

theorem check_account_extraction_witness:
  "fst (check_account ascii_upper sample_float clk0 (accounts_by_id [taken7 ''1500'']) tracked7
          (0, world7)) = 1 \<and>
   taken_file
     (snd (check_account ascii_upper sample_float clk0 (accounts_by_id [taken7 ''1500''])
             tracked7 (0, world7))) =
     [\<lparr>t_id = ''7'', t_email = ''a@x.com'', t_status = ''AMOUNT_TAKEN'', t_taken = ''1500'',
       t_added_at = 0\<rparr>] \<and>
   monitored_file
     (snd (check_account ascii_upper sample_float clk0 (accounts_by_id [taken7 ''1500''])
             tracked7 (0, world7))) =
     [(''7_a@x.com'', tracked7\<lparr>m_last_known_status := ''AMOUNT TAKEN'', m_last_check := 1\<rparr>)] \<and>
   sent
     (snd (check_account ascii_upper sample_float clk0 (accounts_by_id [taken7 ''1500''])
             tracked7 (0, world7))) =
     [\<lparr>n_email = ''a@x.com'', n_account_id = ''7'', n_old_status = ''AVAILABLE'',
       n_new_status = ''AMOUNT TAKEN'', n_chat_id = 555, n_account_data = taken7 ''1500'',
       n_source = ''bot''\<rparr>]"
proof -
  let ?R = "check_account ascii_upper sample_float clk0 (accounts_by_id [taken7 ''1500''])
              tracked7 (0, world7)"
  have ident: "m_account_id tracked7 \<noteq> ''''"
    by (simp add: tracked7_fields)
  have found: "accounts_by_id [taken7 ''1500''] (m_account_id tracked7) = Some (taken7 ''1500'')"
    by (simp add: tracked7_fields taken7_fields)
  have nonempty: "taken7 ''1500'' \<noteq> []"
    by (rule taken7_fields)
  have cur: "''AMOUNT TAKEN'' = ascii_upper (dget (taken7 ''1500'') ''Status'' STATUS_UNDEFINED)"
    by (simp only: taken7_fields upper_AMOUNT_TAKEN)
  have changed: "''AMOUNT TAKEN'' \<noteq> ascii_upper (m_last_known_status tracked7)"
    by (simp add: tracked7_fields upper_AVAILABLE)
  have extraction: "''AMOUNT TAKEN'' = ''AMOUNT TAKEN'' \<or> ''AMOUNT TAKEN'' = ''DISABLED''"
    by simp
  have run: "?R = (fst ?R, snd ?R)"
    by simp
  have t: "(1 :: time) = clk0 (case sample_float (dget (taken7 ''1500'') ''Taken'' ''0'') of
                      None \<Rightarrow> ticks world7
                    | Some x \<Rightarrow> if float_pos x then ticks world7 + 1 else ticks world7)"
    by (simp add: taken7_fields sample_float_def world7_def world0_def clk0_def)
  note inst = check_account_extraction [OF ident found nonempty cur changed extraction run t]
  have 1: "fst ?R = 1"
    using inst [THEN conjunct1] by simp
  have 2: "taken_file (snd ?R) =
     [\<lparr>t_id = ''7'', t_email = ''a@x.com'', t_status = ''AMOUNT_TAKEN'', t_taken = ''1500'',
       t_added_at = 0\<rparr>]"
    using inst [THEN conjunct2, THEN conjunct1]
    by (simp add: taken7_fields tracked7_fields sample_float_def add_to_taken_queue_def
        replace_spaces_def world7_def world0_def clk0_def)
  have shape: "monitored_file world7 = [] @ (''7_a@x.com'', tracked7) # [] \<and>
              (\<forall>e\<in>set []. m_account_id (snd e) \<noteq> m_account_id tracked7) \<and>
              m_account_id tracked7 = m_account_id tracked7"
    by (simp add: world7_def)
  have 3: "monitored_file (snd ?R) =
     [(''7_a@x.com'', tracked7\<lparr>m_last_known_status := ''AMOUNT TAKEN'', m_last_check := 1\<rparr>)]"
    using inst [THEN conjunct2, THEN conjunct2, THEN conjunct2, THEN conjunct1,
                THEN spec, THEN spec, THEN spec, THEN spec, THEN mp, OF shape]
    by simp
  have 4: "sent (snd ?R) =
     [\<lparr>n_email = ''a@x.com'', n_account_id = ''7'', n_old_status = ''AVAILABLE'',
       n_new_status = ''AMOUNT TAKEN'', n_chat_id = 555, n_account_data = taken7 ''1500'',
       n_source = ''bot''\<rparr>]"
    using inst [THEN conjunct2, THEN conjunct2, THEN conjunct2, THEN conjunct2,
                THEN conjunct2, THEN conjunct2]
    by (simp add: tracked7_fields upper_AVAILABLE world7_def world0_def)
  from 1 2 3 4 show ?thesis by (intro conjI)
qed

text \<open>
  C6, as the specification states it, fails on \<^verbatim>\<open>Taken = "0"\<close>: the value parses and is
  not above zero, nothing is queued, and the log holds the status change only: the skip
  is not logged. It fails as well when the file holds the account twice: the change is
  detected on the second entry, and the second entry keeps its old status.
\<close>

theorem check_account_extraction_counterexample:
  "sample_float (dget (taken7 ''0'') ''Taken'' ''0'') = Some (Finite 0) \<and>
   \<not> float_pos (Finite 0) \<and>
   taken_file
     (snd (check_account ascii_upper sample_float clk0 (accounts_by_id [taken7 ''0'']) tracked7
             (0, world7))) = [] \<and>
   monitor_log
     (snd (check_account ascii_upper sample_float clk0 (accounts_by_id [taken7 ''0'']) tracked7
             (0, world7))) =
     [StatusChanged ''a@x.com'' ''AVAILABLE'' ''AMOUNT TAKEN''] \<and>
   (''7_a@x.com'', tracked7) \<in> set (monitored_file world77) \<and>
   map (\<lambda>(k, e). (k, m_last_known_status e))
     (monitored_file
       (snd (check_account ascii_upper sample_float clk0 (accounts_by_id [taken7 ''1500''])
               tracked7 (0, world77)))) =
     [(''7_A@x.com'', ''AMOUNT TAKEN''), (''7_a@x.com'', ''AVAILABLE'')]"
  by (simp add: check_account_def Let_def enqueue_taken_def taken7_fields taken7_truthy
      tracked7_fields upper_AMOUNT_TAKEN upper_AVAILABLE sample_float_def
      send_status_notification_def world7_def world77_def world0_def tracked7_first_def)

section \<open>The watch session\<close>

text \<open>
  The invariant of the burst fields: an active burst has a start time. It holds initially
  and every writer of the fields keeps it, so \<open>check_burst_mode\<close> does not raise.
\<close>

lemma burst_invariant_kept:
  "burst_mode_active init_cache \<longrightarrow> burst_mode_started init_cache \<noteq> None"
  "(burst_mode_active sc \<longrightarrow> burst_mode_started sc \<noteq> None) \<Longrightarrow>
   burst_mode_active (fst (activate_burst_mode account_id now (sc, st))) \<longrightarrow>
   burst_mode_started (fst (activate_burst_mode account_id now (sc, st))) \<noteq> None"
  "check_burst_mode now sc = Inr sc' \<Longrightarrow>
   burst_mode_active sc' \<longrightarrow> burst_mode_started sc' \<noteq> None"
  "burst_mode_active (smart_cache (end_burst account_id w)) \<longrightarrow>
   burst_mode_started (smart_cache (end_burst account_id w)) \<noteq> None"
  by (auto simp: init_cache_def activate_burst_mode_def check_burst_mode_def end_burst_def
      split: if_splits option.splits)


lemma check_burst_mode_result:
  assumes "check_burst_mode now sc = Inr sc'"
  shows "sc' = sc \<or>
         sc' = sc\<lparr>burst_mode_active := False, burst_mode_started := None, burst_targets := {}\<rparr>"
  using assms by (auto simp: check_burst_mode_def split: option.splits if_splits)

lemma check_burst_mode_early:
  assumes "check_burst_mode now sc = Inr sc'"
    and "burst_mode_started sc = Some s" and "now - s < BURST_MODE_DURATION"
  shows "sc' = sc"
  using assms by (auto simp: check_burst_mode_def split: if_splits)

lemma admit_smart_cache [simp]:
  "smart_cache (admit env email account_id chat_id g status info w) = smart_cache w"
  by (simp add: admit_def)

text \<open>
  What one attempt does to the cache: the expiry check, which leaves it or resets the
  three burst fields, and nothing more when the loop goes on; when the attempt returns,
  the flag is set off and the identifier of the session is taken out of the target set.
\<close>

lemma burst_attempt_cache:
  assumes "burst_attempt up env email account_id chat_id g attempt (l, w) = (r, l', w')"
  shows "\<exists>sc. (sc = smart_cache w \<or>
               sc = (smart_cache w)\<lparr>burst_mode_active := False, burst_mode_started := None,
                                    burst_targets := {}\<rparr>) \<and>
              (r = None \<longrightarrow> smart_cache w' = sc) \<and>
              (r \<noteq> None \<longrightarrow>
                 smart_cache w' =
                   sc\<lparr>burst_mode_active := False,
                      burst_targets := burst_targets sc - {account_id}\<rparr>)"
proof (cases "check_burst_mode (clock env (ticks w)) (smart_cache w)")
  case (Inl err)
  with assms show ?thesis by (simp add: burst_attempt_def)
next
  case (Inr sc)
  from check_burst_mode_result [OF Inr]
  have sc: "sc = smart_cache w \<or>
            sc = (smart_cache w)\<lparr>burst_mode_active := False, burst_mode_started := None,
                                 burst_targets := {}\<rparr>" .
  show ?thesis
  proof (cases "search_sender_by_id env attempt")
    case Raises
    with assms Inr sc show ?thesis by (auto simp: burst_attempt_def)
  next
    case (Returns found)
    with assms Inr have
      "(r = None \<longrightarrow> smart_cache w' = sc) \<and>
       (r \<noteq> None \<longrightarrow>
          smart_cache w' =
            sc\<lparr>burst_mode_active := False, burst_targets := burst_targets sc - {account_id}\<rparr>)"
      by (auto simp: burst_attempt_def end_burst_def Let_def split: if_splits prod.splits)
    with sc show ?thesis by blast
  qed
qed

text \<open>While the burst has not lasted its duration the expiry check changes nothing.\<close>

lemma burst_attempt_cache_early:
  assumes step: "burst_attempt up env email account_id chat_id g attempt (l, w) = (r, l', w')"
    and started: "burst_mode_started (smart_cache w) = Some s"
    and early: "\<forall>n. clock env n - s < BURST_MODE_DURATION"
  shows "(r = None \<longrightarrow> smart_cache w' = smart_cache w) \<and>
         (r \<noteq> None \<longrightarrow>
            smart_cache w' =
              (smart_cache w)\<lparr>burst_mode_active := False,
                               burst_targets := burst_targets (smart_cache w) - {account_id}\<rparr>)"
proof (cases "check_burst_mode (clock env (ticks w)) (smart_cache w)")
  case (Inl err)
  with step show ?thesis by (simp add: burst_attempt_def)
next
  case (Inr sc)
  from early have "clock env (ticks w) - s < BURST_MODE_DURATION" ..
  from check_burst_mode_early [OF Inr started this] have sc: "sc = smart_cache w" .
  show ?thesis
  proof (cases "search_sender_by_id env attempt")
    case Raises
    with step Inr sc show ?thesis by (auto simp: burst_attempt_def)
  next
    case (Returns found)
    with step Inr sc show ?thesis
      by (auto simp: burst_attempt_def end_burst_def Let_def split: if_splits prod.splits)
  qed
qed

text \<open>
  The burst fields during the second loop. \<open>T\<close> is the target set and \<open>s\<close> the start
  time when the loop starts: either both are still there, or an expiry check has reset
  the start time and emptied the set.
\<close>

lemma burst_attempts_state:
  "burst_attempts up env email account_id chat_id g n attempt (l, w) = (r, l', w') \<Longrightarrow>
   (burst_mode_started (smart_cache w) = Some s \<and> burst_targets (smart_cache w) = T) \<or>
   (burst_mode_started (smart_cache w) = None \<and> burst_targets (smart_cache w) = {}) \<Longrightarrow>
   (r = None \<longrightarrow>
      (burst_mode_started (smart_cache w') = Some s \<and> burst_targets (smart_cache w') = T) \<or>
      (burst_mode_started (smart_cache w') = None \<and> burst_targets (smart_cache w') = {})) \<and>
   (r \<noteq> None \<longrightarrow>
      \<not> burst_mode_active (smart_cache w') \<and>
      ((burst_mode_started (smart_cache w') = Some s \<and>
        burst_targets (smart_cache w') = T - {account_id}) \<or>
       (burst_mode_started (smart_cache w') = None \<and> burst_targets (smart_cache w') = {})))"
proof (induction n arbitrary: attempt l w)
  case 0
  then show ?case by auto
next
  case (Suc n)
  obtain r1 l1 w1 where
    step: "burst_attempt up env email account_id chat_id g attempt (l, w) = (r1, l1, w1)"
    by (cases "burst_attempt up env email account_id chat_id g attempt (l, w)") auto
  from burst_attempt_cache [OF step] obtain sc where
    sc: "sc = smart_cache w \<or>
         sc = (smart_cache w)\<lparr>burst_mode_active := False, burst_mode_started := None,
                              burst_targets := {}\<rparr>"
    and none: "r1 = None \<longrightarrow> smart_cache w1 = sc"
    and some: "r1 \<noteq> None \<longrightarrow>
                 smart_cache w1 =
                   sc\<lparr>burst_mode_active := False, burst_targets := burst_targets sc - {account_id}\<rparr>"
    by blast
  show ?case
  proof (cases r1)
    case None
    with Suc.prems(1) step
    have rest: "burst_attempts up env email account_id chat_id g n (Suc attempt) (l1, w1) =
                  (r, l', w')"
      by simp
    from none None sc Suc.prems(2)
    have "(burst_mode_started (smart_cache w1) = Some s \<and> burst_targets (smart_cache w1) = T) \<or>
          (burst_mode_started (smart_cache w1) = None \<and> burst_targets (smart_cache w1) = {})"
      by auto
    from Suc.IH [OF rest this] show ?thesis .
  next
    case (Some info)
    with Suc.prems(1) step have "r = r1" "w' = w1" by simp_all
    with some Some sc Suc.prems(2) show ?thesis by auto
  qed
qed

lemma burst_attempts_state_early:
  "burst_attempts up env email account_id chat_id g n attempt (l, w) = (r, l', w') \<Longrightarrow>
   burst_mode_started (smart_cache w) = Some s \<Longrightarrow>
   \<forall>n. clock env n - s < BURST_MODE_DURATION \<Longrightarrow>
   burst_mode_started (smart_cache w') = Some s \<and>
   (r = None \<longrightarrow> burst_targets (smart_cache w') = burst_targets (smart_cache w)) \<and>
   (r \<noteq> None \<longrightarrow>
      burst_targets (smart_cache w') = burst_targets (smart_cache w) - {account_id})"
proof (induction n arbitrary: attempt l w)
  case 0
  then show ?case by auto
next
  case (Suc n)
  obtain r1 l1 w1 where
    step: "burst_attempt up env email account_id chat_id g attempt (l, w) = (r1, l1, w1)"
    by (cases "burst_attempt up env email account_id chat_id g attempt (l, w)") auto
  note c = burst_attempt_cache_early [OF step Suc.prems(2) Suc.prems(3)]
  show ?case
  proof (cases r1)
    case None
    with Suc.prems(1) step
    have rest: "burst_attempts up env email account_id chat_id g n (Suc attempt) (l1, w1) =
                  (r, l', w')"
      by simp
    from c None have same: "smart_cache w1 = smart_cache w" by simp
    with Suc.prems(2) have "burst_mode_started (smart_cache w1) = Some s" by simp
    from Suc.IH [OF rest this Suc.prems(3)] same show ?thesis by simp
  next
    case (Some info)
    with Suc.prems(1) step have "r = r1" "w' = w1" by simp_all
    with c Some Suc.prems(2) show ?thesis by simp
  qed
qed

lemma attempts_exhausted_cache:
  assumes "attempts_exhausted up env email account_id chat_id g info w = (res, w')"
    and "account_id \<noteq> ''''"
  shows "smart_cache w' =
           (smart_cache w)\<lparr>burst_mode_active := False,
                            burst_targets := burst_targets (smart_cache w) - {account_id}\<rparr>"
  using assms by (auto simp: attempts_exhausted_def Let_def split: if_splits)

text \<open>
  The first loop returns a usable identifier only from the attempt that found it, which
  has activated burst mode for it.
\<close>

lemma initial_search_found:
  "initial_search env email n attempt (a0, i0, e0, w) = Returns (Some aid, info, el, w1) \<Longrightarrow>
   \<not> truthy_str a0 \<Longrightarrow> aid \<noteq> '''' \<Longrightarrow>
   burst_targets (smart_cache w1) = insert aid (burst_targets (smart_cache w)) \<and>
   burst_mode_active (smart_cache w1) \<and>
   ((burst_mode_active (smart_cache w) \<longrightarrow> burst_mode_started (smart_cache w) \<noteq> None) \<longrightarrow>
      burst_mode_started (smart_cache w1) \<noteq> None) \<and>
   monitored_file w1 = monitored_file w \<and> truthy_dict info"
proof (induction n arbitrary: attempt a0 i0 e0 w)
  case 0
  then show ?case by auto
next
  case (Suc n)
  show ?case
  proof (cases "search_sender_by_email env attempt")
    case Raises
    with Suc.prems(1) show ?thesis by simp
  next
    case (Returns found)
    let ?a1 = "if truthy_dict found then map_of (the found) ''idAccount'' else a0"
    show ?thesis
    proof (cases "truthy_dict found \<and> truthy_str ?a1")
      case True
      with Suc.prems(1) Returns
      have "?a1 = Some aid" "info = found"
        and "w1 = w\<lparr>smart_cache := fst (activate_burst_mode aid (clock env (ticks w))
                                          (smart_cache w, stats w)),
                   stats := snd (activate_burst_mode aid (clock env (ticks w))
                                   (smart_cache w, stats w)),
                   pending_file :=
                     add_to_pending_queue_immediately email aid
                       (clock env (ticks w + 1)) (pending_file w),
                   ticks := ticks w + 2\<rparr>"
        by (auto simp: Let_def split: prod.splits if_splits)
      with True show ?thesis
        by (auto simp: activate_burst_mode_def split: if_splits)
    next
      case False
      with Suc.prems(1) Returns
      have rest: "initial_search env email n (Suc attempt) (?a1, found, e0 + 3, w) =
                    Returns (Some aid, info, el, w1)"
        by (auto simp: Let_def split: if_splits)
      from False Suc.prems(2) have "\<not> truthy_str ?a1"
        by (auto split: if_splits)
      from Suc.IH [OF rest this Suc.prems(3)] show ?thesis .
    qed
  qed
qed

text \<open>
  C9, as the code has it. In a state where an active burst has a start time, a session
  that has found its identifier ends, on a final status or with its attempts used up, with
  the global burst flag off. When the start time is still there at the end, no expiry
  check has fired, and the target set is the one before the session without the
  identifier of the session: every other target is still in it. When the start time is
  gone, an expiry check has fired during the session, and the target set is empty. When
  no clock read of the session is as late as the duration after the start time, the first
  is the case.
\<close>

theorem session_ends_burst:
  assumes inv: "burst_mode_active (smart_cache w) \<longrightarrow> burst_mode_started (smart_cache w) \<noteq> None"
    and found: "initial_search env email 14 1 (None, None, 0, w) = Returns (Some aid, info, el, w1)"
    and aid: "aid \<noteq> ''''"
    and run: "wait_for_status_change up env email chat_id g w = (res, w')"
  shows "\<not> burst_mode_active (smart_cache w') \<and>
         (burst_mode_started (smart_cache w') \<noteq> None \<longrightarrow>
            burst_targets (smart_cache w') = burst_targets (smart_cache w) - {aid}) \<and>
         (burst_mode_started (smart_cache w') = None \<longrightarrow> burst_targets (smart_cache w') = {}) \<and>
         (\<forall>s. burst_mode_started (smart_cache w1) = Some s \<and>
              (\<forall>n. clock env n - s < BURST_MODE_DURATION) \<longrightarrow>
            burst_mode_started (smart_cache w') = Some s \<and>
            burst_targets (smart_cache w') = burst_targets (smart_cache w) - {aid})"
proof -
  from initial_search_found [OF found _ aid] inv
  have t1: "burst_targets (smart_cache w1) = insert aid (burst_targets (smart_cache w))"
    and "burst_mode_started (smart_cache w1) \<noteq> None"
    by simp_all
  then obtain s1 where s1: "burst_mode_started (smart_cache w1) = Some s1"
    by auto
  let ?l0 = "\<lparr>total_elapsed = el, last_status = None, status_changes = [],
               stable_count = 0, account_info = info\<rparr>"
  obtain r l w2 where
    loop: "burst_attempts up env email aid chat_id g max_attempts 1 (?l0, w1) = (r, l, w2)"
    by (cases "burst_attempts up env email aid chat_id g max_attempts 1 (?l0, w1)") auto
  from s1 t1
  have j: "(burst_mode_started (smart_cache w1) = Some s1 \<and>
            burst_targets (smart_cache w1) = insert aid (burst_targets (smart_cache w))) \<or>
           (burst_mode_started (smart_cache w1) = None \<and> burst_targets (smart_cache w1) = {})"
    by simp
  note st = burst_attempts_state [OF loop j]
  have final: "\<not> burst_mode_active (smart_cache w') \<and>
      ((burst_mode_started (smart_cache w') = Some s1 \<and>
        burst_targets (smart_cache w') = burst_targets (smart_cache w) - {aid}) \<or>
       (burst_mode_started (smart_cache w') = None \<and> burst_targets (smart_cache w') = {}))"
  proof (cases r)
    case None
    with run found aid loop
    have ex: "attempts_exhausted up env email aid chat_id g (account_info l) w2 = (res, w')"
      by (simp add: wait_for_status_change_def)
    from attempts_exhausted_cache [OF ex aid] st None show ?thesis by auto
  next
    case (Some final_info)
    with run found aid loop have "w' = w2"
      by (simp add: wait_for_status_change_def)
    with st Some show ?thesis by auto
  qed
  have early: "\<forall>s. burst_mode_started (smart_cache w1) = Some s \<and>
              (\<forall>n. clock env n - s < BURST_MODE_DURATION) \<longrightarrow>
            burst_mode_started (smart_cache w') = Some s \<and>
            burst_targets (smart_cache w') = burst_targets (smart_cache w) - {aid}"
  proof (intro allI impI)
    fix s
    assume "burst_mode_started (smart_cache w1) = Some s \<and>
              (\<forall>n. clock env n - s < BURST_MODE_DURATION)"
    then have s: "burst_mode_started (smart_cache w1) = Some s"
      and e: "\<forall>n. clock env n - s < BURST_MODE_DURATION"
      by simp_all
    note se = burst_attempts_state_early [OF loop s e]
    show "burst_mode_started (smart_cache w') = Some s \<and>
            burst_targets (smart_cache w') = burst_targets (smart_cache w) - {aid}"
    proof (cases r)
      case None
      with run found aid loop
      have ex: "attempts_exhausted up env email aid chat_id g (account_info l) w2 = (res, w')"
        by (simp add: wait_for_status_change_def)
      from attempts_exhausted_cache [OF ex aid] se None t1 show ?thesis by auto
    next
      case (Some final_info)
      with run found aid loop have "w' = w2"
        by (simp add: wait_for_status_change_def)
      with se Some t1 show ?thesis by auto
    qed
  qed
  from final early show ?thesis by auto
qed










lemma found_final:
  "initial_search env_final ''a@x.com'' 14 1 (None, None, 0, w) =
     Returns (Some ''7'', Some acc7, 0, found7 w)"
  by (simp add: numeral_eq_Suc env_final_def acc7_def found7_def Let_def split: prod.splits)







lemma world8_fields:
  "burst_mode_active (smart_cache world8) \<longrightarrow> burst_mode_started (smart_cache world8) \<noteq> None"
  "burst_targets (smart_cache world8) = {''8''}"
  by (simp_all add: world8_def world0_def activate_burst_mode_def init_cache_def)

lemma final_started:
  "burst_mode_started
     (smart_cache (snd (wait_for_status_change ascii_upper env_final ''a@x.com'' 555 ''G'' world8)))
     = Some 0"
  by code_simp

text \<open>
  A session for account 7 that starts while burst mode is active for account 8 and sees a
  final status at its first attempt: the flag is off, and the account 8 is the one target
  left.
\<close>

theorem session_ends_burst_witness:
  "\<not> burst_mode_active
        (smart_cache (snd (wait_for_status_change ascii_upper env_final ''a@x.com'' 555 ''G''
                             world8))) \<and>
   burst_targets
        (smart_cache (snd (wait_for_status_change ascii_upper env_final ''a@x.com'' 555 ''G''
                             world8))) = {''8''}"
proof -
  let ?Q = "wait_for_status_change ascii_upper env_final ''a@x.com'' 555 ''G'' world8"
  have aid: "''7'' \<noteq> ''''"
    by simp
  have run: "?Q = (fst ?Q, snd ?Q)"
    by simp
  note inst = session_ends_burst [OF world8_fields(1) found_final aid run]
  from inst have 1: "\<not> burst_mode_active (smart_cache (snd ?Q))"
    by (rule conjunct1)
  have "burst_mode_started (smart_cache (snd ?Q)) \<noteq> None"
    by (simp add: final_started)
  with inst have "burst_targets (smart_cache (snd ?Q)) = burst_targets (smart_cache world8) - {''7''}"
    by blast
  then have 2: "burst_targets (smart_cache (snd ?Q)) = {''8''}"
    by (simp add: world8_fields)
  from 1 2 show ?thesis by (rule conjI)
qed

text \<open>
  C9, as the specification states it, fails on this session: burst mode was active with
  the account 8 as target; after the session has returned, the account 8 is still a target
  and the global flag is off.
\<close>

theorem session_ends_burst_counterexample:
  "burst_mode_active (smart_cache world8) \<and>
   ''8'' \<in> burst_targets (smart_cache world8) \<and>
   fst (wait_for_status_change ascii_upper env_final ''a@x.com'' 555 ''G'' world8) =
     Returned True (Some acc7_final) \<and>
   \<not> burst_mode_active
        (smart_cache (snd (wait_for_status_change ascii_upper env_final ''a@x.com'' 555 ''G''
                             world8))) \<and>
   ''8'' \<in> burst_targets
        (smart_cache (snd (wait_for_status_change ascii_upper env_final ''a@x.com'' 555 ''G''
                             world8)))"
  by code_simp

end
